theory Spec2Isabelle
  imports Main "HOL-Library.AList"
begin

section \<open>Strings of the source language\<close>

text \<open>
  A TypeScript string is modelled as a \<^typ>\<open>string\<close>, one \<^typ>\<open>char\<close> per code unit
  below 256. The white space of \<^verbatim>\<open>trim()\<close> and of the regular expression class
  \<^verbatim>\<open>\s\<close> in that range is tab, line feed, vertical tab, form feed, carriage return,
  space and the no-break space; the class \<^verbatim>\<open>\w\<close> is letters, digits and underscore;
  the dot of a regular expression matches everything but line feed and carriage return.
\<close>

definition isSpace :: "char \<Rightarrow> bool" where
  "isSpace c = (let n = (of_char c :: nat) in (9 \<le> n \<and> n \<le> 13) \<or> n = 32 \<or> n = 160)"

definition isWordChar :: "char \<Rightarrow> bool" where
  "isWordChar c = (let n = (of_char c :: nat) in
     (48 \<le> n \<and> n \<le> 57) \<or> (65 \<le> n \<and> n \<le> 90) \<or> n = 95 \<or> (97 \<le> n \<and> n \<le> 122))"

text \<open>The class \<^verbatim>\<open>[\w\-]\<close> of both regular expressions.\<close>

definition isNameChar :: "char \<Rightarrow> bool" where
  "isNameChar c = (isWordChar c \<or> c = CHR ''-'')"

definition isLineTerminator :: "char \<Rightarrow> bool" where
  "isLineTerminator c = (c = CHR 0x0A \<or> c = CHR 0x0D)"

text \<open>\<^verbatim>\<open>s.trim()\<close>\<close>

definition trim :: "string \<Rightarrow> string" where
  "trim s = rev (dropWhile isSpace (rev (dropWhile isSpace s)))"

text \<open>\<^verbatim>\<open>s.startsWith(p)\<close> and \<^verbatim>\<open>s.endsWith(p)\<close>\<close>

definition startsWith :: "string \<Rightarrow> string \<Rightarrow> bool" where
  "startsWith s p = (take (length p) s = p)"

definition endsWith :: "string \<Rightarrow> string \<Rightarrow> bool" where
  "endsWith s p = startsWith (rev s) (rev p)"

text \<open>
  \<^verbatim>\<open>s.includes(p)\<close>, which is also what \<^verbatim>\<open>s.match(/p/)\<close> decides for a pattern
  without metacharacters.
\<close>

fun includesStr :: "string \<Rightarrow> string \<Rightarrow> bool" where
  "includesStr [] p = (p = [])"
| "includesStr (c # cs) p = (startsWith (c # cs) p \<or> includesStr cs p)"

text \<open>\<^verbatim>\<open>s.replace(p, r)\<close> with a string pattern: the first occurrence only.\<close>

fun replaceFirst :: "string \<Rightarrow> string \<Rightarrow> string \<Rightarrow> string" where
  "replaceFirst p r [] = (if p = [] then r else [])"
| "replaceFirst p r (c # cs) =
     (if startsWith (c # cs) p then r @ drop (length p) (c # cs)
      else c # replaceFirst p r cs)"

text \<open>\<^verbatim>\<open>xs.toString()\<close> of a string array: the elements joined by commas.\<close>

fun toString :: "string list \<Rightarrow> string" where
  "toString [] = []"
| "toString [x] = x"
| "toString (x # y # ys) = x @ '','' @ toString (y # ys)"

section \<open>CobolDocParser\<close>

datatype DocElement = DocElement (elementName: string) (elementDescription: string)

text \<open>\<^verbatim>\<open>new CobolDoc(comment, params, returns, throws)\<close>\<close>

record CobolDoc =
  comment :: string
  params :: "DocElement list"
  returns :: "DocElement list"
  throws :: "DocElement list"

text \<open>
  \<^verbatim>\<open>removeDots\<close>: the loop drops the last character while the text is not empty
  and ends with a period.
\<close>

function removeDots :: "string \<Rightarrow> string" where
  "removeDots currentLine =
     (if currentLine \<noteq> [] \<and> endsWith currentLine ''.''
      then removeDots (butlast currentLine) else currentLine)"
  by pat_completeness auto
termination
  by (relation "measure length") auto

declare removeDots.simps [simp del]

text \<open>
  \<^verbatim>\<open>extractDefaultDoc\<close>: the body of the \<^verbatim>\<open>forEach\<close> callback, then the loop
  as a fold over the lines with the comment as accumulator.
\<close>

definition defaultDocStep :: "string \<Rightarrow> string \<Rightarrow> string" where
  "defaultDocStep currentLine cmt =
     (if startsWith (trim currentLine) ''*>->''
      then cmt @ removeDots (trim (replaceFirst ''<-<*'' [] (replaceFirst ''*>->'' [] currentLine))) @ '' ''
      else cmt)"

definition extractDefaultDoc :: "string list \<Rightarrow> CobolDoc" where
  "extractDefaultDoc documentation =
     \<lparr>comment = fold defaultDocStep documentation [], params = [], returns = [], throws = []\<rparr>"

text \<open>
  The regular expression of \<^verbatim>\<open>createDocElementFromLine\<close>,
  \<^verbatim>\<open>/\s+\*>\s+(@param|@return|@throws)\s([\w-]+)\s?(.*)?/\<close>, matched at the start of
  a text. Each \<^verbatim>\<open>\s+\<close> is followed by a character that is no white space, so it takes
  the whole run; the name, the optional white space and the rest of the line are taken
  greedily and nothing after them can fail. The result is groups 2 and 3, group 3 being
  empty where the source has it empty or undefined.
\<close>

definition stripTag :: "string \<Rightarrow> string option" where
  "stripTag s =
     (if startsWith s ''@param'' then Some (drop 6 s)
      else if startsWith s ''@return'' then Some (drop 7 s)
      else if startsWith s ''@throws'' then Some (drop 7 s)
      else None)"

definition matchDocElementAt :: "string \<Rightarrow> (string \<times> string) option" where
  "matchDocElementAt s =
     (let r1 = dropWhile isSpace s in
      if takeWhile isSpace s = [] \<or> \<not> startsWith r1 ''*>'' then None
      else let r2 = drop 2 r1; r3 = dropWhile isSpace r2 in
        if takeWhile isSpace r2 = [] then None
        else case stripTag r3 of
          None \<Rightarrow> None
        | Some r4 \<Rightarrow>
            (case r4 of
               [] \<Rightarrow> None
             | c # r5 \<Rightarrow>
                 if \<not> isSpace c \<or> takeWhile isNameChar r5 = [] then None
                 else let r6 = dropWhile isNameChar r5;
                          r7 = (case r6 of [] \<Rightarrow> [] | d # ds \<Rightarrow> if isSpace d then ds else d # ds)
                      in Some (takeWhile isNameChar r5, takeWhile (\<lambda>x. \<not> isLineTerminator x) r7)))"

text \<open>\<^verbatim>\<open>exec\<close> of a regular expression without anchor: the leftmost position that matches.\<close>

fun docElementRegex :: "string \<Rightarrow> (string \<times> string) option" where
  "docElementRegex [] = matchDocElementAt []"
| "docElementRegex (c # cs) =
     (case matchDocElementAt (c # cs) of
        Some m \<Rightarrow> Some m
      | None \<Rightarrow> docElementRegex cs)"

text \<open>
  \<^verbatim>\<open>createDocElementFromLine\<close>: with a non-empty group 3 the element has it as
  description; otherwise group 2, which cannot be empty, gives an element with the empty
  description.
\<close>

definition createDocElementFromLine :: "string \<Rightarrow> DocElement option" where
  "createDocElementFromLine currentLine =
     (case docElementRegex currentLine of
        None \<Rightarrow> None
      | Some (g2, g3) \<Rightarrow>
          if g3 \<noteq> [] then Some (DocElement g2 g3)
          else if g2 \<noteq> [] then Some (DocElement g2 [])
          else None)"

definition updateDocElement :: "DocElement list \<Rightarrow> string \<Rightarrow> DocElement list" where
  "updateDocElement elements currentLine =
     (case createDocElementFromLine currentLine of
        Some element \<Rightarrow> elements @ [element]
      | None \<Rightarrow> elements)"

text \<open>The local variables of \<^verbatim>\<open>extractRechDoc\<close>.\<close>

record RechDocState =
  rComment :: string
  rParams :: "DocElement list"
  rReturns :: "DocElement list"
  rThrows :: "DocElement list"
  parsingRechDoc :: bool
  extractingComment :: bool

text \<open>The four tag tests of the loop body, in the order of the source.\<close>

definition paramStep :: "string \<Rightarrow> RechDocState \<Rightarrow> RechDocState" where
  "paramStep currentLine s =
     (if includesStr currentLine ''@param''
      then s\<lparr>rParams := updateDocElement (rParams s) currentLine, extractingComment := False\<rparr>
      else s)"

definition returnStep :: "string \<Rightarrow> RechDocState \<Rightarrow> RechDocState" where
  "returnStep currentLine s =
     (if includesStr currentLine ''@return''
      then s\<lparr>extractingComment := False, rReturns := updateDocElement (rReturns s) currentLine\<rparr>
      else s)"

definition throwsStep :: "string \<Rightarrow> RechDocState \<Rightarrow> RechDocState" where
  "throwsStep currentLine s =
     (if includesStr currentLine ''@throws''
      then s\<lparr>extractingComment := False, rThrows := updateDocElement (rThrows s) currentLine\<rparr>
      else s)"

definition otherTagStep :: "string \<Rightarrow> RechDocState \<Rightarrow> RechDocState" where
  "otherTagStep currentLine s =
     (if includesStr currentLine ''@enum'' \<or> includesStr currentLine ''@optional''
         \<or> includesStr currentLine ''@default'' \<or> includesStr currentLine ''@extends''
      then s\<lparr>extractingComment := False\<rparr>
      else s)"

text \<open>
  The summary branch: \<^verbatim>\<open>comment.concat("\n\n")\<close> builds a new string and drops it, so
  the empty content leaves the state as it is.
\<close>

definition commentStep :: "string \<Rightarrow> RechDocState \<Rightarrow> RechDocState" where
  "commentStep currentLine s =
     (if extractingComment s
      then (let currentComment = trim (replaceFirst ''*>'' [] currentLine) in
            if length currentComment = 0 then s
            else s\<lparr>rComment := rComment s @ currentComment @ '' ''\<rparr>)
      else s)"

definition rechDocStep :: "string \<Rightarrow> RechDocState \<Rightarrow> RechDocState" where
  "rechDocStep currentLine s =
     (if startsWith (trim currentLine) ''*>/**''
      then s\<lparr>parsingRechDoc := True, extractingComment := True\<rparr>
      else let s1 = (if startsWith (trim currentLine) ''*>*/''
                     then s\<lparr>parsingRechDoc := False\<rparr> else s)
           in if parsingRechDoc s1
              then commentStep currentLine
                     (otherTagStep currentLine
                       (throwsStep currentLine
                         (returnStep currentLine
                           (paramStep currentLine s1))))
              else s1)"

definition rechDocInit :: RechDocState where
  "rechDocInit = \<lparr>rComment = [], rParams = [], rReturns = [], rThrows = [],
                  parsingRechDoc = False, extractingComment = False\<rparr>"

definition rechDocResult :: "RechDocState \<Rightarrow> CobolDoc" where
  "rechDocResult s =
     \<lparr>comment = rComment s, params = rParams s, returns = rReturns s, throws = rThrows s\<rparr>"

definition extractRechDoc :: "string list \<Rightarrow> CobolDoc" where
  "extractRechDoc documentation = rechDocResult (fold rechDocStep documentation rechDocInit)"

definition isRechDoc :: "string list \<Rightarrow> bool" where
  "isRechDoc documentation = includesStr (toString documentation) ''*>/**''"

definition parseCobolDoc :: "string list \<Rightarrow> CobolDoc" where
  "parseCobolDoc documentation =
     (if isRechDoc documentation then extractRechDoc documentation
      else extractDefaultDoc documentation)"

section \<open>ParagraphCompletion\<close>

datatype error = TypeError

text \<open>
  A completion item. Its \<^verbatim>\<open>detail\<close> and \<^verbatim>\<open>documentation.value\<close> are computed from the
  parsed documentation by the accessors of \<^verbatim>\<open>CobolDoc\<close>, a class that is not among the
  sources: the item keeps the \<^typ>\<open>CobolDoc\<close> both are computed from. Start and end of the
  range are the same position, and \<^verbatim>\<open>kind\<close> is the constant \<^verbatim>\<open>Method\<close>.
\<close>

record CompletionItem =
  label :: string
  newText :: string
  rangeLine :: int
  rangeCharacter :: int
  cobolDoc :: CobolDoc

text \<open>
  A \<^verbatim>\<open>Map<string, CompletionItem>\<close> keeps its keys in the order of their first insertion
  and \<^verbatim>\<open>set\<close> on a present key replaces the value in place: an association list
  with \<^const>\<open>AList.update\<close>, \<^verbatim>\<open>has\<close> and \<^verbatim>\<open>get\<close> being \<^const>\<open>map_of\<close>.
\<close>

type_synonym ItemMap = "(string \<times> CompletionItem) list"

text \<open>The fields of an instance that the methods read and write.\<close>

record ParagraphCompletion =
  cacheFileName :: string
  uri :: string
  currentLines :: "string list option"
  lineNumber :: int
  rangeColumn :: int

text \<open>
  \<^verbatim>\<open>getElementDocumentation\<close>: the loop walks down from \<^verbatim>\<open>lineIndex - 1\<close> while the
  index is not negative. \<^verbatim>\<open>lines[index]\<close> beyond the array is \<^verbatim>\<open>undefined\<close>, and
  \<^verbatim>\<open>startsWith\<close> on it raises a \<^verbatim>\<open>TypeError\<close>.
\<close>

function docLoop :: "string list \<Rightarrow> int \<Rightarrow> string list \<Rightarrow> error + string list" where
  "docLoop lines index documentation =
     (if index \<ge> 0
      then (if index < int (length lines)
            then (if startsWith (lines ! nat index) ''      *>''
                  then docLoop lines (index - 1) (documentation @ [lines ! nat index])
                  else Inr documentation)
            else Inl TypeError)
      else Inr documentation)"
  by pat_completeness auto
termination
  by (relation "measure (\<lambda>(lines, index, documentation). nat (index + 1))") auto

declare docLoop.simps [simp del]

definition getElementDocumentation :: "string list \<Rightarrow> int \<Rightarrow> error + string list" where
  "getElementDocumentation lines lineIndex =
     (case docLoop lines (lineIndex - 1) [] of
        Inl e \<Rightarrow> Inl e
      | Inr documentation \<Rightarrow> Inr (rev documentation))"

definition createParagraphCompletion ::
    "ParagraphCompletion \<Rightarrow> string \<Rightarrow> string list \<Rightarrow> CompletionItem" where
  "createParagraphCompletion this paragraph docArray =
     \<lparr>label = paragraph, newText = paragraph,
      rangeLine = lineNumber this, rangeCharacter = rangeColumn this,
      cobolDoc = parseCobolDoc docArray\<rparr>"

subsection \<open>The scanner and the declaration parser\<close>

text \<open>
  The regular expression of the scan,
  \<^verbatim>\<open>/^\s\s\s\s\s\s\s([\w\-]+)\.(?:\s*\*\>.*)?/gm\<close>, at the start of one line: seven
  white-space characters, a name and a period. The optional comment after the period
  decides nothing.
\<close>

definition isParagraphDeclaration :: "string \<Rightarrow> bool" where
  "isParagraphDeclaration line =
     (length (takeWhile isSpace (take 7 line)) = 7
      \<and> takeWhile isNameChar (drop 7 line) \<noteq> []
      \<and> startsWith (dropWhile isNameChar (drop 7 line)) ''.'')"

text \<open>What the callback of a scan reads from its iterator.\<close>

record ScanIterator =
  row :: nat
  lineContent :: string

text \<open>
  Modelled from the spec: \<^verbatim>\<open>Scan.scan\<close> (the class \<^verbatim>\<open>Scan\<close> is not among the sources).
  The scanner yields, in the order of the buffer, one occurrence with line index and line text
  for every line that begins with the margin, a name token and the terminating period.
\<close>

definition scanLines :: "string list \<Rightarrow> ScanIterator list" where
  "scanLines lines =
     map (\<lambda>i. \<lparr>row = i, lineContent = lines ! i\<rparr>)
       (filter (\<lambda>i. isParagraphDeclaration (lines ! i)) [0..<length lines])"

text \<open>
  Modelled from the spec: \<^verbatim>\<open>ParserCobol.getDeclaracaoParagrafo\<close> (the class
  \<^verbatim>\<open>ParserCobol\<close> is not among the sources). The name of a declaration line is its name
  token, as extracted; a trailing comment is ignored; any other line has no name.
\<close>

definition getDeclaracaoParagrafo :: "string \<Rightarrow> string option" where
  "getDeclaracaoParagrafo line =
     (if isParagraphDeclaration line then Some (takeWhile isNameChar (drop 7 line)) else None)"

subsection \<open>Building the index\<close>

text \<open>The callback passed to the scan; an exception of the callback ends the scan.\<close>

definition scanCallback ::
    "ParagraphCompletion \<Rightarrow> string list \<Rightarrow> ScanIterator \<Rightarrow> ItemMap \<Rightarrow> error + ItemMap" where
  "scanCallback this lines iterator items =
     (let paragraphName = getDeclaracaoParagrafo (lineContent iterator) in
      case getElementDocumentation lines (int (row iterator)) of
        Inl e \<Rightarrow> Inl e
      | Inr docArray \<Rightarrow>
          (case paragraphName of
             None \<Rightarrow> Inr items
           | Some name \<Rightarrow>
               if name \<noteq> []
               then Inr (AList.update name (createParagraphCompletion this name docArray) items)
               else Inr items))"

fun scanLoop ::
    "ParagraphCompletion \<Rightarrow> string list \<Rightarrow> ScanIterator list \<Rightarrow> ItemMap \<Rightarrow> error + ItemMap" where
  "scanLoop this lines [] items = Inr items"
| "scanLoop this lines (iterator # rest) items =
     (case scanCallback this lines iterator items of
        Inl e \<Rightarrow> Inl e
      | Inr items' \<Rightarrow> scanLoop this lines rest items')"

text \<open>The body of the \<^verbatim>\<open>forEach\<close> that merges the local paragraphs.\<close>

definition mergeStep :: "string \<times> CompletionItem \<Rightarrow> ItemMap \<Rightarrow> ItemMap" where
  "mergeStep entry items =
     (if map_of items (fst entry) = None
      then AList.update (fst entry) (snd entry) items
      else items)"

text \<open>
  \<^verbatim>\<open>generateParagraphCompletion\<close>. With \<^verbatim>\<open>useCache\<close> the method calls itself once, on
  the current lines and without \<^verbatim>\<open>useCache\<close>; current lines that are still
  \<^verbatim>\<open>undefined\<close> make \<^verbatim>\<open>join\<close> raise.
\<close>

function generateParagraphCompletion ::
    "ParagraphCompletion \<Rightarrow> string list \<Rightarrow> bool \<Rightarrow> error + ItemMap" where
  "generateParagraphCompletion this lines False = scanLoop this lines (scanLines lines) []"
| "generateParagraphCompletion this lines True =
     (case scanLoop this lines (scanLines lines) [] of
        Inl e \<Rightarrow> Inl e
      | Inr items \<Rightarrow>
          (case currentLines this of
             None \<Rightarrow> Inl TypeError
           | Some current \<Rightarrow>
               (case generateParagraphCompletion this current False of
                  Inl e \<Rightarrow> Inl e
                | Inr local \<Rightarrow> Inr (fold mergeStep local items))))"
  by pat_completeness auto
termination
  by (relation "measure (\<lambda>(this, lines, useCache). if useCache then 1 else 0)") auto

subsection \<open>The cache and the request\<close>

text \<open>
  The state of a promise. A promise settles once: \<^verbatim>\<open>resolve\<close> and \<^verbatim>\<open>reject\<close> on a
  settled promise change nothing.
\<close>

datatype 'a Promise = Pending | Fulfilled 'a | Rejected

definition resolve :: "'a \<Rightarrow> 'a Promise \<Rightarrow> 'a Promise" where
  "resolve v p = (case p of Pending \<Rightarrow> Fulfilled v | _ \<Rightarrow> p)"

definition reject :: "'a Promise \<Rightarrow> 'a Promise" where
  "reject p = (case p of Pending \<Rightarrow> Rejected | _ \<Rightarrow> p)"

text \<open>
  The static fields of the class, both \<^verbatim>\<open>undefined\<close> before the first write, together
  with the log of the URIs for which \<^verbatim>\<open>ExpandedSourceManager.getExpandedSource\<close> was
  called.
\<close>

record World =
  cache :: "ItemMap option"
  cacheSourceFileName :: "string option"
  expandedSourceRequests :: "string list"

text \<open>
  The collaborators of a request, none of them among the sources, taken as parameters:
  \<^verbatim>\<open>CompletionUtils.findWordStartWithinLine\<close>, which receives \<^verbatim>\<open>undefined\<close> (here
  \<^const>\<open>None\<close>) for a line beyond the buffer; \<^verbatim>\<open>BufferSplitter.split\<close>; what the promise
  \<^verbatim>\<open>sourceOfCompletions\<close> settles to; and what the promise of the expanded source
  settles to for a URI. \<^const>\<open>Pending\<close> is a promise that never settles.
\<close>

record Env =
  findWordStartWithinLine :: "int \<Rightarrow> string option \<Rightarrow> int"
  split :: "string \<Rightarrow> string list"
  sourceOfCompletions :: "string Promise"
  getExpandedSource :: "string \<Rightarrow> string Promise"

text \<open>
  \<^verbatim>\<open>loadCache\<close>: the callbacks of the two promises, run after they have settled. The
  result is the world they leave and the state of the promise that \<^verbatim>\<open>loadCache\<close>
  returned. The callback of \<^verbatim>\<open>sourceOfCompletions\<close> has no rejection handler, and an
  exception inside it rejects only the promise derived by \<^verbatim>\<open>then\<close>: in both cases the
  promise of \<^verbatim>\<open>loadCache\<close> stays pending. An exception in the callback of the
  expanded source reaches the \<^verbatim>\<open>catch\<close> behind it, after the file name was written.
\<close>

definition loadCache :: "Env \<Rightarrow> ParagraphCompletion \<Rightarrow> World \<Rightarrow> World \<times> unit Promise" where
  "loadCache env this w =
     (case sourceOfCompletions env of
        Fulfilled source \<Rightarrow>
          if source = ''local''
          then (case currentLines this of
                  None \<Rightarrow> (w, Pending)
                | Some current \<Rightarrow>
                    (case generateParagraphCompletion this current False of
                       Inl e \<Rightarrow> (w, Pending)
                     | Inr items \<Rightarrow>
                         (w\<lparr>cache := Some items,
                            cacheSourceFileName := Some (cacheFileName this)\<rparr>,
                          Fulfilled ())))
          else let w1 = w\<lparr>expandedSourceRequests := expandedSourceRequests w @ [uri this]\<rparr> in
               (case getExpandedSource env (uri this) of
                  Fulfilled buffer \<Rightarrow>
                    let w2 = w1\<lparr>cacheSourceFileName := Some (cacheFileName this)\<rparr> in
                    (case generateParagraphCompletion this (split env buffer) True of
                       Inl e \<Rightarrow> (w2, Rejected)
                     | Inr items \<Rightarrow> (w2\<lparr>cache := Some items\<rparr>, Fulfilled ()))
                | Rejected \<Rightarrow> (w1, Rejected)
                | Pending \<Rightarrow> (w1, Pending))
      | Rejected \<Rightarrow> (w, Pending)
      | Pending \<Rightarrow> (w, Pending))"

text \<open>\<^verbatim>\<open>lines[line]\<close>\<close>

definition lineAt :: "string list \<Rightarrow> int \<Rightarrow> string option" where
  "lineAt lines line =
     (if 0 \<le> line \<and> line < int (length lines) then Some (lines ! nat line) else None)"

text \<open>
  \<^verbatim>\<open>Map.values()\<close> pushed one by one into an array.
\<close>

definition mapValues :: "ItemMap \<Rightarrow> CompletionItem list" where
  "mapValues items = map snd items"

text \<open>
  The executor of the promise that \<^verbatim>\<open>generate\<close> returns runs at once: it writes the
  fields, calls \<^verbatim>\<open>loadCache\<close>, whose callbacks run only later, reads the cache as it
  is at that moment and resolves with the items. An exception in the executor rejects
  the promise.
\<close>

definition generateExecutor ::
    "Env \<Rightarrow> ParagraphCompletion \<Rightarrow> World \<Rightarrow> int \<Rightarrow> int \<Rightarrow> string list
     \<Rightarrow> ParagraphCompletion \<times> CompletionItem list Promise" where
  "generateExecutor env this0 w line column lines =
     (let this = this0\<lparr>currentLines := Some lines, lineNumber := line,
                       rangeColumn := findWordStartWithinLine env column (lineAt lines line) - 1\<rparr>;
          items = (case cache w of
                     Some cached \<Rightarrow>
                       if cacheSourceFileName w = Some (cacheFileName this)
                       then Inr (mapValues cached)
                       else (case generateParagraphCompletion this lines False of
                               Inl e \<Rightarrow> Inl e | Inr built \<Rightarrow> Inr (mapValues built))
                   | None \<Rightarrow>
                       (case generateParagraphCompletion this lines False of
                          Inl e \<Rightarrow> Inl e | Inr built \<Rightarrow> Inr (mapValues built)))
      in (this, case items of Inl e \<Rightarrow> reject Pending | Inr found \<Rightarrow> resolve found Pending))"

text \<open>
  \<^verbatim>\<open>generate\<close>, from the call until every callback has run: the executor first, then
  the callbacks of \<^verbatim>\<open>loadCache\<close>, then the handler
  \<^verbatim>\<open>this.loadCache().catch(() => { reject(); })\<close> if the promise of \<^verbatim>\<open>loadCache\<close>
  was rejected. The result is the instance, the world and the state of the returned
  promise.
\<close>

definition generate ::
    "Env \<Rightarrow> ParagraphCompletion \<Rightarrow> World \<Rightarrow> int \<Rightarrow> int \<Rightarrow> string list
     \<Rightarrow> ParagraphCompletion \<times> World \<times> CompletionItem list Promise" where
  "generate env this0 w line column lines =
     (let (this, returned) = generateExecutor env this0 w line column lines;
          (w', loaded) = loadCache env this w
      in (this, w', case loaded of Rejected \<Rightarrow> reject returned | _ \<Rightarrow> returned))"

text \<open>\<^verbatim>\<open>clearCache\<close>\<close>

definition clearCache :: "World \<Rightarrow> World" where
  "clearCache w = w\<lparr>cache := Some [], cacheSourceFileName := Some []\<rparr>"

section \<open>Dialect selection\<close>

text \<open>
  A pattern that holds no comma and is not empty occurs in the comma-joined array exactly
  when it occurs in one of the elements.
\<close>

lemma startsWith_append_sep:
  assumes "c \<notin> set p"
  shows "startsWith (x @ c # ys) p = startsWith x p"
proof (cases "length p \<le> length x")
  case True
  then show ?thesis by (simp add: startsWith_def)
next
  case False
  then have "length x < length p" by simp
  have "\<not> startsWith (x @ c # ys) p"
  proof
    assume "startsWith (x @ c # ys) p"
    then have "p = take (length p) (x @ c # ys)" by (simp add: startsWith_def)
    also have "\<dots> = x @ take (length p - length x) (c # ys)"
      using \<open>length x < length p\<close> by simp
    also have "\<dots> = x @ c # take (length p - length x - 1) ys"
      using \<open>length x < length p\<close> by (cases "length p - length x") auto
    finally have "c \<in> set p" by (metis in_set_conv_decomp)
    with assms show False by simp
  qed
  moreover have "\<not> startsWith x p"
    using False by (auto simp: startsWith_def dest: arg_cong[where f=length])
  ultimately show ?thesis by simp
qed

lemma includesStr_append_sep:
  assumes "c \<notin> set p" "p \<noteq> []"
  shows "includesStr (x @ c # ys) p = (includesStr x p \<or> includesStr ys p)"
proof (induction x)
  case Nil
  have "\<not> startsWith (c # ys) p"
    using assms by (cases p) (auto simp: startsWith_def)
  with assms show ?case by simp
next
  case (Cons a x)
  have "startsWith (a # x @ c # ys) p = startsWith (a # x) p"
    using startsWith_append_sep[OF assms(1), of "a # x" ys] by simp
  with Cons show ?case by auto
qed

lemma includesStr_toString:
  assumes "CHR '','' \<notin> set p" "p \<noteq> []"
  shows "includesStr (toString xs) p = (\<exists>l\<in>set xs. includesStr l p)"
proof (induction xs rule: toString.induct)
  case 1
  with assms show ?case by simp
next
  case (2 x)
  show ?case by simp
next
  case (3 x y ys)
  have "includesStr (toString (x # y # ys)) p =
        (includesStr x p \<or> includesStr (toString (y # ys)) p)"
    using includesStr_append_sep[OF assms, of x "toString (y # ys)"] by simp
  with 3 show ?case by simp
qed

text \<open>
  Claim C5. The dialect is decided once for a comment block: when some line of the block
  contains the opener \<^verbatim>\<open>*>/**\<close>, \<^const>\<open>parseCobolDoc\<close> is the structured extraction
  \<^const>\<open>extractRechDoc\<close> of the block, whatever freeform markers the block also has;
  otherwise it is the freeform extraction \<^const>\<open>extractDefaultDoc\<close>.
\<close>

theorem parseCobolDoc_dialect:
  "parseCobolDoc documentation =
     (if \<exists>line\<in>set documentation. includesStr line ''*>/**''
      then extractRechDoc documentation
      else extractDefaultDoc documentation)"
  by (simp add: parseCobolDoc_def isRechDoc_def includesStr_toString)


theorem parseCobolDoc_dialect_witness:
  "(\<exists>line\<in>set [''      *>/**'', ''      *>-> Old style. <-<*'', ''      *> New style.'', ''      *>*/''].
       includesStr line ''*>/**'')
   \<and> parseCobolDoc [''      *>/**'', ''      *>-> Old style. <-<*'', ''      *> New style.'', ''      *>*/'']
       = \<lparr>comment = ''-> Old style. <-<* New style. '', params = [], returns = [], throws = []\<rparr>
   \<and> extractDefaultDoc [''      *>/**'', ''      *>-> Old style. <-<*'', ''      *> New style.'', ''      *>*/'']
       = \<lparr>comment = ''Old style '', params = [], returns = [], throws = []\<rparr>"
proof -
  let ?d = "[''      *>/**'', ''      *>-> Old style. <-<*'', ''      *> New style.'', ''      *>*/'']"
  have a: "\<exists>line\<in>set ?d. includesStr line ''*>/**''"
    by code_simp
  have b: "extractRechDoc ?d = \<lparr>comment = ''-> Old style. <-<* New style. '', params = [], returns = [], throws = []\<rparr>"
    by code_simp
  have c: "extractDefaultDoc ?d = \<lparr>comment = ''Old style '', params = [], returns = [], throws = []\<rparr>"
    by code_simp
  from a b c parseCobolDoc_dialect [of ?d] show ?thesis by simp
qed

section \<open>Blank lines of a structured block\<close>

lemma trim_Nil_iff: "trim s = [] \<longleftrightarrow> (\<forall>c\<in>set s. isSpace c)"
proof
  assume "trim s = []"
  then have all: "\<forall>c\<in>set (dropWhile isSpace s). isSpace c"
    by (simp add: trim_def dropWhile_eq_Nil_conv)
  have "dropWhile isSpace s = []"
  proof (rule ccontr)
    assume ne: "dropWhile isSpace s \<noteq> []"
    then have "\<not> isSpace (hd (dropWhile isSpace s))" by (rule hd_dropWhile)
    moreover from ne have "hd (dropWhile isSpace s) \<in> set (dropWhile isSpace s)" by simp
    ultimately show False using all by blast
  qed
  then show "\<forall>c\<in>set s. isSpace c" by (simp add: dropWhile_eq_Nil_conv)
next
  assume "\<forall>c\<in>set s. isSpace c"
  then have "dropWhile isSpace s = []" by (metis dropWhile_eq_Nil_conv)
  then show "trim s = []" by (simp add: trim_def del: dropWhile_eq_Nil_conv)
qed

lemma set_trim_subset: "set (trim s) \<subseteq> set s"
proof
  fix c assume "c \<in> set (trim s)"
  then have "c \<in> set (dropWhile isSpace (rev (dropWhile isSpace s)))"
    by (simp add: trim_def)
  then have "c \<in> set (rev (dropWhile isSpace s))" by (rule set_dropWhileD)
  then have "c \<in> set (dropWhile isSpace s)" by simp
  then show "c \<in> set s" by (rule set_dropWhileD)
qed

lemma startsWith_set: "startsWith s p \<Longrightarrow> set p \<subseteq> set s"
  unfolding startsWith_def by (metis set_take_subset)

lemma includesStr_set: "includesStr s p \<Longrightarrow> set p \<subseteq> set s"
proof (induction s)
  case Nil
  then show ?case by simp
next
  case (Cons c cs)
  from Cons.prems have "startsWith (c # cs) p \<or> includesStr cs p" by simp
  then show ?case
  proof
    assume "startsWith (c # cs) p"
    then show ?thesis by (rule startsWith_set)
  next
    assume "includesStr cs p"
    then have "set p \<subseteq> set cs" by (rule Cons.IH)
    then show ?thesis by auto
  qed
qed

lemma set_replaceFirst: "set s \<subseteq> set (replaceFirst p r s) \<union> set p"
proof (induction s)
  case Nil
  show ?case by simp
next
  case (Cons c cs)
  show ?case
  proof (cases "startsWith (c # cs) p")
    case True
    then have "c # cs = p @ drop (length p) (c # cs)"
      unfolding startsWith_def by (metis append_take_drop_id)
    then have "set (c # cs) = set p \<union> set (drop (length p) (c # cs))"
      by (metis set_append)
    with True show ?thesis by auto
  next
    case False
    with Cons show ?thesis by auto
  qed
qed

lemma blank_line_chars:
  assumes "trim (replaceFirst ''*>'' [] line) = []"
  shows "\<forall>c\<in>set line. isSpace c \<or> c = CHR ''*'' \<or> c = CHR ''>''"
proof
  fix c assume "c \<in> set line"
  with set_replaceFirst [of line "''*>''" "[]"]
  have "c \<in> set (replaceFirst ''*>'' [] line) \<or> c \<in> set ''*>''" by blast
  with assms show "isSpace c \<or> c = CHR ''*'' \<or> c = CHR ''>''"
    by (auto simp: trim_Nil_iff)
qed

lemma blank_line_no_char:
  assumes "trim (replaceFirst ''*>'' [] line) = []"
    and "\<not> isSpace c" "c \<noteq> CHR ''*''" "c \<noteq> CHR ''>''"
  shows "c \<notin> set line"
  using blank_line_chars [OF assms(1)] assms(2-) by blast

lemma blank_line_no_tag:
  assumes "trim (replaceFirst ''*>'' [] line) = []" and "CHR ''@'' \<in> set p"
  shows "\<not> includesStr line p"
proof
  assume "includesStr line p"
  then have "CHR ''@'' \<in> set line" using assms(2) by (auto dest: includesStr_set)
  moreover have "CHR ''@'' \<notin> set line"
    by (rule blank_line_no_char [OF assms(1)]) (simp_all add: isSpace_def)
  ultimately show False by simp
qed

lemma blank_line_no_delimiter:
  assumes "trim (replaceFirst ''*>'' [] line) = []" and "CHR ''/'' \<in> set p"
  shows "\<not> startsWith (trim line) p"
proof
  assume "startsWith (trim line) p"
  then have "CHR ''/'' \<in> set line"
    using assms(2) set_trim_subset [of line] by (auto dest: startsWith_set)
  moreover have "CHR ''/'' \<notin> set line"
    by (rule blank_line_no_char [OF assms(1)]) (simp_all add: isSpace_def)
  ultimately show False by simp
qed

lemma blank_line_step:
  assumes "trim (replaceFirst ''*>'' [] line) = []"
  shows "rechDocStep line s = s"
proof -
  have tags: "\<not> includesStr line ''@param''" "\<not> includesStr line ''@return''"
    "\<not> includesStr line ''@throws''" "\<not> includesStr line ''@enum''"
    "\<not> includesStr line ''@optional''" "\<not> includesStr line ''@default''"
    "\<not> includesStr line ''@extends''"
    by (rule blank_line_no_tag [OF assms], simp)+
  have delims: "\<not> startsWith (trim line) ''*>/**''" "\<not> startsWith (trim line) ''*>*/''"
    by (rule blank_line_no_delimiter [OF assms], simp)+
  from tags delims assms show ?thesis
    by (simp add: rechDocStep_def paramStep_def returnStep_def throwsStep_def
        otherTagStep_def commentStep_def)
qed

text \<open>
  Claim C8. A line of a structured block whose content, after the marker \<^verbatim>\<open>*>\<close> is
  removed and the rest trimmed, is empty changes nothing: the step of the parser returns
  the state it was given, with the same summary, the same parameter, return and throws
  lists and the same two flags. Hence the block parses to the same documentation with
  the line as without it.
\<close>

theorem blank_line_contributes_nothing:
  assumes "trim (replaceFirst ''*>'' [] line) = []"
  shows "rechDocStep line s = s
       \<and> extractRechDoc (before @ line # after) = extractRechDoc (before @ after)"
  using blank_line_step [OF assms] by (simp add: extractRechDoc_def)

theorem blank_line_contributes_nothing_witness:
  "trim (replaceFirst ''*>'' [] ''      *>  '') = []
   \<and> rechDocStep ''      *>  ''
        \<lparr>rComment = ''Opens the file. '', rParams = [DocElement ''name'' ''file name''],
         rReturns = [], rThrows = [], parsingRechDoc = True, extractingComment = True\<rparr>
     = \<lparr>rComment = ''Opens the file. '', rParams = [DocElement ''name'' ''file name''],
         rReturns = [], rThrows = [], parsingRechDoc = True, extractingComment = True\<rparr>
   \<and> extractRechDoc ([''      *>/**'', ''      *> Opens the file.''] @ ''      *>  '' # [''      *> Then reads it.'', ''      *>*/''])
     = extractRechDoc ([''      *>/**'', ''      *> Opens the file.''] @ [''      *> Then reads it.'', ''      *>*/''])
   \<and> extractRechDoc ([''      *>/**'', ''      *> Opens the file.''] @ [''      *> Then reads it.'', ''      *>*/''])
     = \<lparr>comment = ''Opens the file. Then reads it. '', params = [], returns = [], throws = []\<rparr>"
proof -
  have h: "trim (replaceFirst ''*>'' [] ''      *>  '') = []" by code_simp
  have e: "extractRechDoc ([''      *>/**'', ''      *> Opens the file.''] @ [''      *> Then reads it.'', ''      *>*/''])
     = \<lparr>comment = ''Opens the file. Then reads it. '', params = [], returns = [], throws = []\<rparr>"
    by code_simp
  from h e blank_line_contributes_nothing [OF h] show ?thesis by blast
qed

section \<open>The comment block above a declaration\<close>

lemma docLoop_in_range:
  "index < int (length lines) \<Longrightarrow>
   docLoop lines index documentation =
     Inr (documentation @ takeWhile (\<lambda>l. startsWith l ''      *>'') (rev (take (nat (index + 1)) lines)))"
proof (induction lines index documentation rule: docLoop.induct)
  case (1 lines index documentation)
  show ?case
  proof (cases "index \<ge> 0")
    case False
    then show ?thesis by (simp add: docLoop.simps [of lines index])
  next
    case True
    with "1.prems" have lt: "nat index < length lines" by simp
    from True have n: "nat (index + 1) = Suc (nat index)" by simp
    have tk: "rev (take (nat (index + 1)) lines) = lines ! nat index # rev (take (nat index) lines)"
      using lt by (simp add: n take_Suc_conv_app_nth)
    show ?thesis
    proof (cases "startsWith (lines ! nat index) ''      *>''")
      case False
      with True "1.prems" show ?thesis
        by (simp add: docLoop.simps [of lines index] tk)
    next
      case st: True
      from "1.prems" have "index - 1 < int (length lines)" by simp
      with "1.IH" True "1.prems" st
      have "docLoop lines (index - 1) (documentation @ [lines ! nat index]) =
            Inr ((documentation @ [lines ! nat index]) @
                 takeWhile (\<lambda>l. startsWith l ''      *>'') (rev (take (nat (index - 1 + 1)) lines)))"
        by blast
      with True "1.prems" st show ?thesis
        by (simp add: docLoop.simps [of lines index] tk)
    qed
  qed
qed

lemma docLoop_out_of_range:
  "int (length lines) \<le> index \<Longrightarrow> docLoop lines index documentation = Inl TypeError"
  by (simp add: docLoop.simps [of lines index])

lemma getElementDocumentation_eq:
  "getElementDocumentation lines lineIndex =
     (if lineIndex \<le> 0 then Inr []
      else if lineIndex \<le> int (length lines)
      then Inr (rev (takeWhile (\<lambda>l. startsWith l ''      *>'') (rev (take (nat lineIndex) lines))))
      else Inl TypeError)"
proof -
  consider "lineIndex \<le> 0" | "0 < lineIndex" "lineIndex \<le> int (length lines)"
    | "int (length lines) < lineIndex" by linarith
  then show ?thesis
  proof cases
    case 1
    then have "docLoop lines (lineIndex - 1) [] = Inr []"
      by (simp add: docLoop.simps [of lines "lineIndex - 1"])
    with 1 show ?thesis by (simp add: getElementDocumentation_def)
  next
    case 2
    then have "lineIndex - 1 < int (length lines)" by simp
    from docLoop_in_range [OF this, of "[]"] 2 show ?thesis
      by (simp add: getElementDocumentation_def)
  next
    case 3
    then have "int (length lines) \<le> lineIndex - 1" by simp
    from docLoop_out_of_range [OF this, of "[]"] 3 show ?thesis
      by (simp add: getElementDocumentation_def)
  qed
qed

text \<open>
  Claim C6, as the code has it. For a line index that is zero or negative the comment
  block is empty and nothing is raised. For an index from one to the length of the
  buffer the block is the longest run of lines starting with \<^verbatim>\<open>      *>\<close> directly
  above the index, in source order; at the length of the buffer this is the run of
  comment lines that ends the buffer, which need not be empty. For an index beyond the
  length the first read is \<^verbatim>\<open>undefined\<close> and a \<^verbatim>\<open>TypeError\<close> is raised.
\<close>

theorem getElementDocumentation_cases:
  "getElementDocumentation lines lineIndex =
     (if lineIndex \<le> 0 then Inr []
      else if lineIndex \<le> int (length lines)
      then Inr (rev (takeWhile (\<lambda>l. startsWith l ''      *>'') (rev (take (nat lineIndex) lines))))
      else Inl TypeError)"
  by (rule getElementDocumentation_eq)

theorem getElementDocumentation_cases_witness:
  "getElementDocumentation [''      *> Opens.'', ''       OPEN-FILE.''] 0 = Inr []
   \<and> getElementDocumentation [''      *> Opens.'', ''       OPEN-FILE.''] (- 3) = Inr []
   \<and> getElementDocumentation [''      *> Opens.'', ''       OPEN-FILE.''] 1 = Inr [''      *> Opens.'']
   \<and> getElementDocumentation [''      *> Opens.'', ''       OPEN-FILE.''] 2 = Inr []
   \<and> getElementDocumentation [''      *> Opens.'', ''       OPEN-FILE.''] 3 = Inl TypeError"
proof -
  let ?b = "[''      *> Opens.'', ''       OPEN-FILE.'']"
  have s1: "startsWith ''      *> Opens.'' ''      *>''" by code_simp
  have s2: "\<not> startsWith ''       OPEN-FILE.'' ''      *>''" by code_simp
  from s1 s2 getElementDocumentation_cases [of ?b 0] getElementDocumentation_cases [of ?b "- 3"]
    getElementDocumentation_cases [of ?b 1] getElementDocumentation_cases [of ?b 2]
    getElementDocumentation_cases [of ?b 3]
  show ?thesis by simp
qed

text \<open>
  At the length of the buffer the block is not empty when the buffer ends with a comment
  line, and beyond the length the call raises.
\<close>

theorem getElementDocumentation_out_of_range_counterexample:
  "getElementDocumentation [''       OPEN-FILE.'', ''      *> Trailing note.''] 2
     = Inr [''      *> Trailing note.'']
   \<and> getElementDocumentation [''       OPEN-FILE.'', ''      *> Trailing note.''] 3
     = Inl TypeError
   \<and> getElementDocumentation [] 1 = Inl TypeError"
  by (simp add: getElementDocumentation_def docLoop.simps startsWith_def)

section \<open>Building and merging indexes\<close>

lemma map_of_mergeStep:
  "map_of (mergeStep entry items) key =
     (case map_of items key of
        Some item \<Rightarrow> Some item
      | None \<Rightarrow> if key = fst entry then Some (snd entry) else None)"
  by (auto simp: mergeStep_def update_conv' split: option.splits)

lemma map_of_fold_mergeStep:
  "map_of (fold mergeStep local items) key =
     (case map_of items key of Some item \<Rightarrow> Some item | None \<Rightarrow> map_of local key)"
proof (induction local arbitrary: items)
  case Nil
  show ?case by (simp split: option.splits)
next
  case (Cons entry local)
  show ?case
    by (cases entry) (simp add: Cons.IH map_of_mergeStep split: option.splits)
qed

lemma getElementDocumentation_total:
  "i \<le> length lines \<Longrightarrow> \<exists>docArray. getElementDocumentation lines (int i) = Inr docArray"
  by (simp add: getElementDocumentation_eq)

lemma scanCallback_in_range:
  assumes "row iterator \<le> length lines"
  shows "\<exists>docArray. getElementDocumentation lines (int (row iterator)) = Inr docArray \<and>
     scanCallback this lines iterator items =
       Inr (case getDeclaracaoParagrafo (lineContent iterator) of
              None \<Rightarrow> items
            | Some name \<Rightarrow>
                if name \<noteq> []
                then AList.update name (createParagraphCompletion this name docArray) items
                else items)"
proof -
  from getElementDocumentation_total [OF assms]
  obtain docArray where "getElementDocumentation lines (int (row iterator)) = Inr docArray" ..
  then show ?thesis by (auto simp: scanCallback_def split: option.splits)
qed

lemma scanLoop_append:
  "scanLoop this lines (xs @ ys) items =
     (case scanLoop this lines xs items of
        Inl e \<Rightarrow> Inl e
      | Inr items' \<Rightarrow> scanLoop this lines ys items')"
  by (induction xs arbitrary: items) (auto split: sum.splits)

lemma scanLoop_total:
  "\<forall>iterator\<in>set its. row iterator \<le> length lines \<Longrightarrow>
   \<exists>items'. scanLoop this lines its items = Inr items'"
proof (induction its arbitrary: items)
  case Nil
  show ?case by simp
next
  case (Cons iterator its)
  from Cons.prems have "row iterator \<le> length lines" by simp
  from scanCallback_in_range [OF this, of this items]
  obtain items1 where "scanCallback this lines iterator items = Inr items1" by blast
  moreover from Cons.prems have "\<forall>iterator\<in>set its. row iterator \<le> length lines" by simp
  from Cons.IH [OF this, of items1]
  obtain items' where "scanLoop this lines its items1 = Inr items'" ..
  ultimately show ?case by simp
qed

lemma scanLoop_other_names:
  "\<forall>iterator\<in>set its. getDeclaracaoParagrafo (lineContent iterator) \<noteq> Some name \<Longrightarrow>
   scanLoop this lines its items = Inr items' \<Longrightarrow>
   map_of items' name = map_of items name"
proof (induction its arbitrary: items)
  case Nil
  then show ?case by simp
next
  case (Cons iterator its)
  from Cons.prems(2) obtain items1 where
    cb: "scanCallback this lines iterator items = Inr items1" and
    rest: "scanLoop this lines its items1 = Inr items'"
    by (auto split: sum.splits)
  from Cons.prems(1) have other: "getDeclaracaoParagrafo (lineContent iterator) \<noteq> Some name"
    by simp
  from cb other have "map_of items1 name = map_of items name"
    by (auto simp: scanCallback_def update_conv' split: sum.splits option.splits if_splits)
  moreover from Cons.prems(1) have
    "\<forall>iterator\<in>set its. getDeclaracaoParagrafo (lineContent iterator) \<noteq> Some name" by simp
  from Cons.IH [OF this rest] have "map_of items' name = map_of items1 name" .
  ultimately show ?case by simp
qed

lemma scanLoop_distinct:
  "distinct (map fst items) \<Longrightarrow> scanLoop this lines its items = Inr items' \<Longrightarrow>
   distinct (map fst items')"
proof (induction its arbitrary: items)
  case Nil
  then show ?case by simp
next
  case (Cons iterator its)
  from Cons.prems(2) obtain items1 where
    cb: "scanCallback this lines iterator items = Inr items1" and
    rest: "scanLoop this lines its items1 = Inr items'"
    by (auto split: sum.splits)
  from cb Cons.prems(1) have "distinct (map fst items1)"
    by (auto simp: scanCallback_def distinct_update split: sum.splits option.splits if_splits)
  from Cons.IH [OF this rest] show ?case .
qed

lemma scanLines_rows: "\<forall>iterator\<in>set (scanLines lines). row iterator \<le> length lines"
  by (auto simp: scanLines_def)

lemma generateParagraphCompletion_local_total:
  "\<exists>items. generateParagraphCompletion this lines False = Inr items \<and> distinct (map fst items)"
proof -
  from scanLoop_total [OF scanLines_rows, of this lines "[]"]
  obtain items where s: "scanLoop this lines (scanLines lines) [] = Inr items" ..
  from scanLoop_distinct [OF _ s] have "distinct (map fst items)" by simp
  with s show ?thesis by simp
qed

lemma generateParagraphCompletion_merge:
  assumes "currentLines this = Some current"
  shows "\<exists>E L M. generateParagraphCompletion this expanded False = Inr E
           \<and> generateParagraphCompletion this current False = Inr L
           \<and> generateParagraphCompletion this expanded True = Inr M
           \<and> M = fold mergeStep L E"
proof -
  from generateParagraphCompletion_local_total [of this expanded]
  obtain E where e: "generateParagraphCompletion this expanded False = Inr E" by blast
  from generateParagraphCompletion_local_total [of this current]
  obtain L where l: "generateParagraphCompletion this current False = Inr L" by blast
  from e have "scanLoop this expanded (scanLines expanded) [] = Inr E" by simp
  with l assms have "generateParagraphCompletion this expanded True = Inr (fold mergeStep L E)"
    by simp
  with e l show ?thesis by blast
qed

text \<open>
  Claim C3. Merging a local index into an index built from the expanded source keeps,
  for every key of the expanded index, the record of the expanded index, and adds, for
  every key that only the local index has, the record of the local index. This holds
  for the merge loop on any two indexes, and for \<^const>\<open>generateParagraphCompletion\<close>
  with \<^verbatim>\<open>useCache\<close>: its result is the merge of the index of the expanded lines and
  the index of the current lines, and none of the three calls raises.
\<close>

theorem merge_precedence:
  assumes "currentLines this = Some current"
  shows "map_of (fold mergeStep L0 E0) key0 =
           (case map_of E0 key0 of Some item \<Rightarrow> Some item | None \<Rightarrow> map_of L0 key0)
       \<and> (\<exists>E L M. generateParagraphCompletion this expanded False = Inr E
           \<and> generateParagraphCompletion this current False = Inr L
           \<and> generateParagraphCompletion this expanded True = Inr M
           \<and> (\<forall>key. map_of M key =
                 (case map_of E key of Some item \<Rightarrow> Some item | None \<Rightarrow> map_of L key)))"
  using generateParagraphCompletion_merge [OF assms, of expanded]
  by (auto simp: map_of_fold_mergeStep)

theorem merge_precedence_witness:
  "currentLines
     \<lparr>cacheFileName = ''c'', uri = ''u'',
      currentLines = Some [''      *>-> Local text. <-<*'', ''       K.'', ''       ONLY-L.''],
      lineNumber = 4, rangeColumn = 11\<rparr>
     = Some [''      *>-> Local text. <-<*'', ''       K.'', ''       ONLY-L.'']
   \<and> (\<exists>E L M.
        generateParagraphCompletion
          \<lparr>cacheFileName = ''c'', uri = ''u'',
           currentLines = Some [''      *>-> Local text. <-<*'', ''       K.'', ''       ONLY-L.''],
           lineNumber = 4, rangeColumn = 11\<rparr>
          [''      *>-> From copy. <-<*'', ''       K.'', ''       ONLY-E.''] False = Inr E
      \<and> generateParagraphCompletion
          \<lparr>cacheFileName = ''c'', uri = ''u'',
           currentLines = Some [''      *>-> Local text. <-<*'', ''       K.'', ''       ONLY-L.''],
           lineNumber = 4, rangeColumn = 11\<rparr>
          [''      *>-> Local text. <-<*'', ''       K.'', ''       ONLY-L.''] False = Inr L
      \<and> generateParagraphCompletion
          \<lparr>cacheFileName = ''c'', uri = ''u'',
           currentLines = Some [''      *>-> Local text. <-<*'', ''       K.'', ''       ONLY-L.''],
           lineNumber = 4, rangeColumn = 11\<rparr>
          [''      *>-> From copy. <-<*'', ''       K.'', ''       ONLY-E.''] True = Inr M
      \<and> (\<forall>key. map_of M key =
            (case map_of E key of Some item \<Rightarrow> Some item | None \<Rightarrow> map_of L key)))
   \<and> generateParagraphCompletion
        \<lparr>cacheFileName = ''c'', uri = ''u'',
         currentLines = Some [''      *>-> Local text. <-<*'', ''       K.'', ''       ONLY-L.''],
         lineNumber = 4, rangeColumn = 11\<rparr>
        [''      *>-> From copy. <-<*'', ''       K.'', ''       ONLY-E.''] True
      = Inr [(''K'', \<lparr>label = ''K'', newText = ''K'', rangeLine = 4, rangeCharacter = 11,
                cobolDoc = \<lparr>comment = ''From copy '', params = [], returns = [], throws = []\<rparr>\<rparr>),
             (''ONLY-E'', \<lparr>label = ''ONLY-E'', newText = ''ONLY-E'', rangeLine = 4, rangeCharacter = 11,
                cobolDoc = \<lparr>comment = [], params = [], returns = [], throws = []\<rparr>\<rparr>),
             (''ONLY-L'', \<lparr>label = ''ONLY-L'', newText = ''ONLY-L'', rangeLine = 4, rangeCharacter = 11,
                cobolDoc = \<lparr>comment = [], params = [], returns = [], throws = []\<rparr>\<rparr>)]"
proof -
  let ?local = "[''      *>-> Local text. <-<*'', ''       K.'', ''       ONLY-L.'']"
  let ?expanded = "[''      *>-> From copy. <-<*'', ''       K.'', ''       ONLY-E.'']"
  let ?self = "\<lparr>cacheFileName = ''c'', uri = ''u'', currentLines = Some ?local,
                lineNumber = 4, rangeColumn = 11\<rparr>"
  have h: "currentLines ?self = Some ?local" by simp
  have m: "generateParagraphCompletion ?self ?expanded True
      = Inr [(''K'', \<lparr>label = ''K'', newText = ''K'', rangeLine = 4, rangeCharacter = 11,
                cobolDoc = \<lparr>comment = ''From copy '', params = [], returns = [], throws = []\<rparr>\<rparr>),
             (''ONLY-E'', \<lparr>label = ''ONLY-E'', newText = ''ONLY-E'', rangeLine = 4, rangeCharacter = 11,
                cobolDoc = \<lparr>comment = [], params = [], returns = [], throws = []\<rparr>\<rparr>),
             (''ONLY-L'', \<lparr>label = ''ONLY-L'', newText = ''ONLY-L'', rangeLine = 4, rangeCharacter = 11,
                cobolDoc = \<lparr>comment = [], params = [], returns = [], throws = []\<rparr>\<rparr>)]"
    by code_simp
  from merge_precedence [OF h, of _ _ _ ?expanded] have
    "\<exists>E L M. generateParagraphCompletion ?self ?expanded False = Inr E
      \<and> generateParagraphCompletion ?self ?local False = Inr L
      \<and> generateParagraphCompletion ?self ?expanded True = Inr M
      \<and> (\<forall>key. map_of M key =
            (case map_of E key of Some item \<Rightarrow> Some item | None \<Rightarrow> map_of L key))"
    by (rule conjunct2)
  with h m show ?thesis by blast
qed

lemma getDeclaracaoParagrafo_Some:
  "getDeclaracaoParagrafo line = Some name \<Longrightarrow> isParagraphDeclaration line \<and> name \<noteq> []"
  by (auto simp: getDeclaracaoParagrafo_def isParagraphDeclaration_def split: if_splits)

lemma scanLines_split:
  assumes "i < length lines" "isParagraphDeclaration (lines ! i)"
  shows "scanLines lines =
     map (\<lambda>j. \<lparr>row = j, lineContent = lines ! j\<rparr>)
       (filter (\<lambda>j. isParagraphDeclaration (lines ! j)) [0..<i])
     @ \<lparr>row = i, lineContent = lines ! i\<rparr>
     # map (\<lambda>j. \<lparr>row = j, lineContent = lines ! j\<rparr>)
       (filter (\<lambda>j. isParagraphDeclaration (lines ! j)) [Suc i..<length lines])"
proof -
  from assms(1) have "[0..<length lines] = [0..<i] @ i # [Suc i..<length lines]"
    by (metis le_add1 less_imp_add_positive upt_add_eq_append upt_conv_Cons plus_nat.add_0 less_or_eq_imp_le)
  then have "scanLines lines =
     map (\<lambda>j. \<lparr>row = j, lineContent = lines ! j\<rparr>)
       (filter (\<lambda>j. isParagraphDeclaration (lines ! j)) ([0..<i] @ i # [Suc i..<length lines]))"
    by (simp only: scanLines_def)
  with assms(2) show ?thesis by simp
qed

lemma last_declaration_wins:
  assumes i: "i < length lines"
    and decl: "getDeclaracaoParagrafo (lines ! i) = Some name"
    and last: "\<forall>j. i < j \<and> j < length lines \<longrightarrow> getDeclaracaoParagrafo (lines ! j) \<noteq> Some name"
  shows "\<exists>items docArray. generateParagraphCompletion this lines False = Inr items
           \<and> distinct (map fst items)
           \<and> getElementDocumentation lines (int i) = Inr docArray
           \<and> map_of items name = Some (createParagraphCompletion this name docArray)"
proof -
  let ?mk = "\<lambda>j. \<lparr>row = j, lineContent = lines ! j\<rparr>"
  let ?A = "map ?mk (filter (\<lambda>j. isParagraphDeclaration (lines ! j)) [0..<i])"
  let ?B = "map ?mk (filter (\<lambda>j. isParagraphDeclaration (lines ! j)) [Suc i..<length lines])"
  from getDeclaracaoParagrafo_Some [OF decl]
  have p: "isParagraphDeclaration (lines ! i)" and ne: "name \<noteq> []" by simp_all
  have split: "scanLines lines = ?A @ ?mk i # ?B" by (rule scanLines_split [OF i p])
  have "\<forall>iterator\<in>set ?A. row iterator \<le> length lines" using i by auto
  from scanLoop_total [OF this, of this "[]"]
  obtain items1 where a: "scanLoop this lines ?A [] = Inr items1" ..
  from i have "row (?mk i) \<le> length lines" by simp
  from scanCallback_in_range [OF this, of this items1] decl ne
  obtain docArray where doc: "getElementDocumentation lines (int i) = Inr docArray"
    and cb: "scanCallback this lines (?mk i) items1 =
               Inr (AList.update name (createParagraphCompletion this name docArray) items1)"
    by auto
  have "\<forall>iterator\<in>set ?B. row iterator \<le> length lines" by auto
  from scanLoop_total [OF this, of this "AList.update name (createParagraphCompletion this name docArray) items1"]
  obtain items where b: "scanLoop this lines ?B
      (AList.update name (createParagraphCompletion this name docArray) items1) = Inr items" ..
  have "\<forall>iterator\<in>set ?B. getDeclaracaoParagrafo (lineContent iterator) \<noteq> Some name"
    using last by auto
  from scanLoop_other_names [OF this b]
  have look: "map_of items name = Some (createParagraphCompletion this name docArray)"
    by (simp add: update_conv')
  from a cb b have all: "generateParagraphCompletion this lines False = Inr items"
    by (simp add: split scanLoop_append)
  from generateParagraphCompletion_local_total [of this lines] all
  have "distinct (map fst items)" by auto
  with all doc look show ?thesis by blast
qed

text \<open>
  Claim C1, as the code has it. Building the index of a buffer without \<^verbatim>\<open>useCache\<close>
  never raises and gives an index without duplicate keys. The callback of the scan
  calls \<^verbatim>\<open>items.set\<close> for every occurrence, so a name that is declared more than once
  is mapped to the record built from the comment block of its last declaration: the
  earlier records are overwritten silently.
\<close>

theorem duplicate_names_last_wins:
  "(\<exists>items. generateParagraphCompletion this lines False = Inr items \<and> distinct (map fst items))
   \<and> (i < length lines \<and> getDeclaracaoParagrafo (lines ! i) = Some name
        \<and> (\<forall>j. i < j \<and> j < length lines \<longrightarrow> getDeclaracaoParagrafo (lines ! j) \<noteq> Some name)
      \<longrightarrow> (\<exists>items docArray. generateParagraphCompletion this lines False = Inr items
             \<and> getElementDocumentation lines (int i) = Inr docArray
             \<and> map_of items name = Some (createParagraphCompletion this name docArray)))"
  using generateParagraphCompletion_local_total [of this lines]
    last_declaration_wins [of i lines "name" this]
  by blast

theorem duplicate_names_last_wins_witness:
  "3 < length
     [''      *>-> First. <-<*'', ''       PARA-A.'', ''      *>-> Second. <-<*'',
      ''       PARA-A.'', ''       PARA-B.'']
   \<and> getDeclaracaoParagrafo
     ([''      *>-> First. <-<*'', ''       PARA-A.'', ''      *>-> Second. <-<*'',
      ''       PARA-A.'', ''       PARA-B.''] ! 3) = Some ''PARA-A''
   \<and> list_all (\<lambda>line. getDeclaracaoParagrafo line \<noteq> Some ''PARA-A'')
     (drop 4
     [''      *>-> First. <-<*'', ''       PARA-A.'', ''      *>-> Second. <-<*'',
      ''       PARA-A.'', ''       PARA-B.''])
   \<and> (\<exists>items docArray.
       generateParagraphCompletion
         \<lparr>cacheFileName = ''c'', uri = ''u'', currentLines = None, lineNumber = 9,
      rangeColumn = 19\<rparr>
         [''      *>-> First. <-<*'', ''       PARA-A.'', ''      *>-> Second. <-<*'',
      ''       PARA-A.'', ''       PARA-B.''] False = Inr items
       \<and> getElementDocumentation
         [''      *>-> First. <-<*'', ''       PARA-A.'', ''      *>-> Second. <-<*'',
      ''       PARA-A.'', ''       PARA-B.''] (int 3) = Inr docArray
       \<and> map_of items ''PARA-A'' = Some (createParagraphCompletion
         \<lparr>cacheFileName = ''c'', uri = ''u'', currentLines = None, lineNumber = 9,
      rangeColumn = 19\<rparr> ''PARA-A'' docArray))
   \<and> getElementDocumentation
     [''      *>-> First. <-<*'', ''       PARA-A.'', ''      *>-> Second. <-<*'',
      ''       PARA-A.'', ''       PARA-B.''] (int 3) = Inr [''      *>-> Second. <-<*'']"
proof -
  let ?b = "[''      *>-> First. <-<*'', ''       PARA-A.'', ''      *>-> Second. <-<*'',
      ''       PARA-A.'', ''       PARA-B.'']"
  let ?self = "\<lparr>cacheFileName = ''c'', uri = ''u'', currentLines = None, lineNumber = 9,
      rangeColumn = 19\<rparr>"
  have h1: "3 < length ?b" by simp
  have h2: "getDeclaracaoParagrafo (?b ! 3) = Some ''PARA-A''" by code_simp
  have "getDeclaracaoParagrafo (?b ! 4) \<noteq> Some ''PARA-A''" by code_simp
  moreover have "\<And>j::nat. 3 < j \<and> j < 5 \<Longrightarrow> j = 4" by arith
  ultimately have h3:
    "\<forall>j. 3 < j \<and> j < length ?b \<longrightarrow> getDeclaracaoParagrafo (?b ! j) \<noteq> Some ''PARA-A''"
    by auto
  have d: "getElementDocumentation ?b (int 3) = Inr [''      *>-> Second. <-<*'']" by code_simp
  have h3': "list_all (\<lambda>line. getDeclaracaoParagrafo line \<noteq> Some ''PARA-A'') (drop 4 ?b)"
    by code_simp
  from h1 h2 h3 h3' d duplicate_names_last_wins [of ?self ?b 3 "''PARA-A''"]
  show ?thesis by blast
qed

text \<open>
  A paragraph declared twice: the index holds the record of the second comment block,
  not the record that the first comment block gives.
\<close>

theorem duplicate_names_first_wins_counterexample:
  "generateParagraphCompletion
     \<lparr>cacheFileName = ''c'', uri = ''u'', currentLines = None, lineNumber = 9,
      rangeColumn = 19\<rparr>
     [''      *>-> First. <-<*'', ''       PARA-A.'', ''      *>-> Second. <-<*'',
      ''       PARA-A.''] False
     = Inr [(''PARA-A'',
             \<lparr>label = ''PARA-A'', newText = ''PARA-A'', rangeLine = 9, rangeCharacter = 19,
              cobolDoc = \<lparr>comment = ''Second '', params = [], returns = [], throws = []\<rparr>\<rparr>)]
   \<and> getElementDocumentation
     [''      *>-> First. <-<*'', ''       PARA-A.'', ''      *>-> Second. <-<*'',
      ''       PARA-A.''] 1 = Inr [''      *>-> First. <-<*'']
   \<and> createParagraphCompletion
     \<lparr>cacheFileName = ''c'', uri = ''u'', currentLines = None, lineNumber = 9,
      rangeColumn = 19\<rparr> ''PARA-A'' [''      *>-> First. <-<*'']
     = \<lparr>label = ''PARA-A'', newText = ''PARA-A'', rangeLine = 9, rangeCharacter = 19,
        cobolDoc = \<lparr>comment = ''First '', params = [], returns = [], throws = []\<rparr>\<rparr>"
  by code_simp

section \<open>The freeform dialect\<close>

lemma rev_last_butlast: "s \<noteq> [] \<Longrightarrow> rev s = last s # rev (butlast s)"
proof -
  assume "s \<noteq> []"
  then have "rev s = rev (butlast s @ [last s])" by simp
  then show ?thesis by (simp only: rev_append rev.simps append.simps)
qed

lemma endsWith_dot: "s \<noteq> [] \<Longrightarrow> endsWith s ''.'' \<longleftrightarrow> last s = CHR ''.''"
  by (simp add: endsWith_def startsWith_def rev_last_butlast)

lemma removeDots_eq: "removeDots s = rev (dropWhile (\<lambda>c. c = CHR ''.'') (rev s))"
proof (induction s rule: removeDots.induct)
  case (1 s)
  show ?case
  proof (cases "s = []")
    case True
    then show ?thesis by (simp add: removeDots.simps [of "[]"])
  next
    case False
    then have r: "rev s = last s # rev (butlast s)" by (rule rev_last_butlast)
    show ?thesis
    proof (cases "last s = CHR ''.''")
      case True
      with False have "endsWith s ''.''" by (simp add: endsWith_dot)
      with False "1.IH" have "removeDots s = rev (dropWhile (\<lambda>c. c = CHR ''.'') (rev (butlast s)))"
        by (simp add: removeDots.simps [of s])
      moreover have "dropWhile (\<lambda>c. c = CHR ''.'') (rev s) =
                     dropWhile (\<lambda>c. c = CHR ''.'') (rev (butlast s))"
        by (simp add: r True)
      ultimately show ?thesis by simp
    next
      case nd: False
      with False have "\<not> endsWith s ''.''" by (simp add: endsWith_dot)
      then have "removeDots s = s" by (simp add: removeDots.simps [of s])
      moreover have "dropWhile (\<lambda>c. c = CHR ''.'') (rev s) = rev s"
        by (simp add: r nd)
      ultimately show ?thesis by simp
    qed
  qed
qed

lemma fold_defaultDocStep:
  "fold defaultDocStep documentation acc =
     acc @ concat (map (\<lambda>line. removeDots (trim (replaceFirst ''<-<*'' [] (replaceFirst ''*>->'' [] line))) @ '' '')
                    (filter (\<lambda>line. startsWith (trim line) ''*>->'') documentation))"
  by (induction documentation arbitrary: acc) (simp_all add: defaultDocStep_def)

lemma parseCobolDoc_freeform:
  assumes "\<forall>line\<in>set block. \<not> includesStr line ''*>/**''"
  shows "parseCobolDoc block =
     \<lparr>comment = concat (map (\<lambda>line. rev (dropWhile (\<lambda>c. c = CHR ''.'')
                                 (rev (trim (replaceFirst ''<-<*'' [] (replaceFirst ''*>->'' [] line))))) @ '' '')
                    (filter (\<lambda>line. startsWith (trim line) ''*>->'') block)),
      params = [], returns = [], throws = []\<rparr>"
proof -
  from assms have "\<not> isRechDoc block"
    by (simp add: isRechDoc_def includesStr_toString)
  then show ?thesis
    by (simp add: parseCobolDoc_def extractDefaultDoc_def fold_defaultDocStep removeDots_eq)
qed

lemma scenario_blocks:
  "map (\<lambda>iterator. (getDeclaracaoParagrafo (lineContent iterator), row iterator))
       (scanLines [''       PARA-A.'', ''      *>-> Does A. <-<*'', ''       PARA-B.''])
     = [(Some ''PARA-A'', 0), (Some ''PARA-B'', 2)]"
  "getElementDocumentation [''       PARA-A.'', ''      *>-> Does A. <-<*'', ''       PARA-B.''] 0 = Inr []"
  "comment (parseCobolDoc []) = []"
  "getElementDocumentation [''       PARA-A.'', ''      *>-> Does A. <-<*'', ''       PARA-B.''] 2
     = Inr [''      *>-> Does A. <-<*'']"
  "comment (parseCobolDoc [''      *>-> Does A. <-<*'']) = ''Does A ''"
  by code_simp+

text \<open>
  Claim C7, as the code has it. A comment block without the opener \<^verbatim>\<open>*>/**\<close> is parsed
  as freeform: every line that, trimmed, begins with \<^verbatim>\<open>*>->\<close> gives one fragment,
  the line with the first \<^verbatim>\<open>*>->\<close> and the first \<^verbatim>\<open><-<*\<close> removed, trimmed, and
  without the periods at its end, followed by one space; the summary is the fragments in
  order, other lines give nothing, and the three lists are empty. In the buffer of the
  scenario the comment line stands below \<^verbatim>\<open>PARA-A\<close> and above \<^verbatim>\<open>PARA-B\<close>, and the
  block of a declaration is read upward from it: the block of \<^verbatim>\<open>PARA-A\<close> at line 0 is
  empty, with the empty summary, and the block of \<^verbatim>\<open>PARA-B\<close> at line 2 is the comment
  line, with the summary \<^verbatim>\<open>Does A\<close> and the space after it.
\<close>

theorem freeform_summary:
  "((\<forall>line\<in>set block. \<not> includesStr line ''*>/**'') \<longrightarrow>
     parseCobolDoc block =
       \<lparr>comment = concat (map (\<lambda>line. rev (dropWhile (\<lambda>c. c = CHR ''.'')
                                   (rev (trim (replaceFirst ''<-<*'' [] (replaceFirst ''*>->'' [] line))))) @ '' '')
                      (filter (\<lambda>line. startsWith (trim line) ''*>->'') block)),
        params = [], returns = [], throws = []\<rparr>)
   \<and> map (\<lambda>iterator. (getDeclaracaoParagrafo (lineContent iterator), row iterator))
       (scanLines [''       PARA-A.'', ''      *>-> Does A. <-<*'', ''       PARA-B.''])
     = [(Some ''PARA-A'', 0), (Some ''PARA-B'', 2)]
   \<and> getElementDocumentation [''       PARA-A.'', ''      *>-> Does A. <-<*'', ''       PARA-B.''] 0 = Inr []
   \<and> comment (parseCobolDoc []) = []
   \<and> getElementDocumentation [''       PARA-A.'', ''      *>-> Does A. <-<*'', ''       PARA-B.''] 2
     = Inr [''      *>-> Does A. <-<*'']
   \<and> comment (parseCobolDoc [''      *>-> Does A. <-<*'']) = ''Does A ''"
  using parseCobolDoc_freeform [of block] scenario_blocks by blast

theorem freeform_summary_witness:
  "list_all (\<lambda>line. \<not> includesStr line ''*>/**'')
     [''      *>-> Reads the file... <-<*'', ''      *> a plain comment'', ''      *>-> Then closes it. <-<*'']
   \<and> parseCobolDoc [''      *>-> Reads the file... <-<*'', ''      *> a plain comment'', ''      *>-> Then closes it. <-<*'']
     = \<lparr>comment = ''Reads the file Then closes it '', params = [], returns = [], throws = []\<rparr>"
proof -
  let ?b = "[''      *>-> Reads the file... <-<*'', ''      *> a plain comment'', ''      *>-> Then closes it. <-<*'']"
  have h: "\<forall>line\<in>set ?b. \<not> includesStr line ''*>/**''" by code_simp
  have e: "concat (map (\<lambda>line. rev (dropWhile (\<lambda>c. c = CHR ''.'')
                                   (rev (trim (replaceFirst ''<-<*'' [] (replaceFirst ''*>->'' [] line))))) @ '' '')
                      (filter (\<lambda>line. startsWith (trim line) ''*>->'') ?b)) = ''Reads the file Then closes it ''"
    by code_simp
  from freeform_summary [of ?b] h have
    "parseCobolDoc ?b =
       \<lparr>comment = concat (map (\<lambda>line. rev (dropWhile (\<lambda>c. c = CHR ''.'')
                                   (rev (trim (replaceFirst ''<-<*'' [] (replaceFirst ''*>->'' [] line))))) @ '' '')
                      (filter (\<lambda>line. startsWith (trim line) ''*>->'') ?b)),
        params = [], returns = [], throws = []\<rparr>"
    by blast
  with h e show ?thesis by (simp add: list_all_iff)
qed

text \<open>
  In the scenario the summary of \<^verbatim>\<open>PARA-A\<close> is not \<^verbatim>\<open>Does A\<close>, and the block of
  \<^verbatim>\<open>PARA-B\<close> is not empty.
\<close>

theorem freeform_scenario_counterexample:
  "getElementDocumentation [''       PARA-A.'', ''      *>-> Does A. <-<*'', ''       PARA-B.''] 0 = Inr []
   \<and> trim (comment (parseCobolDoc [])) \<noteq> ''Does A''
   \<and> getElementDocumentation [''       PARA-A.'', ''      *>-> Does A. <-<*'', ''       PARA-B.''] 2 \<noteq> Inr []"
  by code_simp

section \<open>Tags inside the summary\<close>

lemma paramStep_fields [simp]:
  "rComment (paramStep line s) = rComment s"
  "parsingRechDoc (paramStep line s) = parsingRechDoc s"
  "extractingComment (paramStep line s) = (extractingComment s \<and> \<not> includesStr line ''@param'')"
  by (simp_all add: paramStep_def)

lemma returnStep_fields [simp]:
  "rComment (returnStep line s) = rComment s"
  "parsingRechDoc (returnStep line s) = parsingRechDoc s"
  "extractingComment (returnStep line s) = (extractingComment s \<and> \<not> includesStr line ''@return'')"
  by (simp_all add: returnStep_def)

lemma throwsStep_fields [simp]:
  "rComment (throwsStep line s) = rComment s"
  "parsingRechDoc (throwsStep line s) = parsingRechDoc s"
  "extractingComment (throwsStep line s) = (extractingComment s \<and> \<not> includesStr line ''@throws'')"
  by (simp_all add: throwsStep_def)

lemma otherTagStep_fields [simp]:
  "rComment (otherTagStep line s) = rComment s"
  "parsingRechDoc (otherTagStep line s) = parsingRechDoc s"
  "extractingComment (otherTagStep line s) =
     (extractingComment s \<and> \<not> (includesStr line ''@enum'' \<or> includesStr line ''@optional''
        \<or> includesStr line ''@default'' \<or> includesStr line ''@extends''))"
  by (simp_all add: otherTagStep_def)

lemma commentStep_fields [simp]:
  "parsingRechDoc (commentStep line s) = parsingRechDoc s"
  "extractingComment (commentStep line s) = extractingComment s"
  "\<not> extractingComment s \<Longrightarrow> rComment (commentStep line s) = rComment s"
  by (simp_all add: commentStep_def Let_def)

lemma tag_line_step:
  assumes "includesStr line ''@param'' \<or> includesStr line ''@return'' \<or> includesStr line ''@throws''
         \<or> includesStr line ''@enum'' \<or> includesStr line ''@optional''
         \<or> includesStr line ''@default'' \<or> includesStr line ''@extends''"
    and "\<not> startsWith (trim line) ''*>/**''"
  shows "rComment (rechDocStep line s) = rComment s"
    and "\<not> (parsingRechDoc (rechDocStep line s) \<and> extractingComment (rechDocStep line s))"
  using assms by (auto simp: rechDocStep_def Let_def)

lemma stopped_step:
  assumes "\<not> (parsingRechDoc s \<and> extractingComment s)"
    and "\<not> startsWith (trim line) ''*>/**''"
  shows "rComment (rechDocStep line s) = rComment s"
    and "\<not> (parsingRechDoc (rechDocStep line s) \<and> extractingComment (rechDocStep line s))"
  using assms by (auto simp: rechDocStep_def Let_def)

lemma stopped_fold:
  assumes "\<forall>l\<in>set rest. \<not> startsWith (trim l) ''*>/**''"
    and "\<not> (parsingRechDoc s \<and> extractingComment s)"
  shows "rComment (fold rechDocStep rest s) = rComment s"
  using assms
proof (induction rest arbitrary: s)
  case Nil
  show ?case by simp
next
  case (Cons l rest)
  from Cons.prems have no: "\<not> startsWith (trim l) ''*>/**''" by simp
  from Cons.prems have "\<forall>l\<in>set rest. \<not> startsWith (trim l) ''*>/**''" by simp
  from Cons.IH [OF this stopped_step(2) [OF Cons.prems(2) no]]
  have "rComment (fold rechDocStep rest (rechDocStep l s)) = rComment (rechDocStep l s)" .
  with stopped_step(1) [OF Cons.prems(2) no] show ?case by simp
qed

lemma tag_line_fold:
  assumes "includesStr line ''@param'' \<or> includesStr line ''@return'' \<or> includesStr line ''@throws''
         \<or> includesStr line ''@enum'' \<or> includesStr line ''@optional''
         \<or> includesStr line ''@default'' \<or> includesStr line ''@extends''"
    and "\<not> startsWith (trim line) ''*>/**''"
    and "\<forall>l\<in>set rest. \<not> startsWith (trim l) ''*>/**''"
  shows "rComment (fold rechDocStep (line # rest) s) = rComment s"
proof -
  from stopped_fold [OF assms(3) tag_line_step(2) [OF assms(1,2)], of s]
  have "rComment (fold rechDocStep rest (rechDocStep line s)) = rComment (rechDocStep line s)" .
  with tag_line_step(1) [OF assms(1,2), of s] show ?thesis by simp
qed

text \<open>
  Claim C10, as the code has it. The tags are looked for anywhere in the line. A line
  that contains \<^verbatim>\<open>@param\<close>, \<^verbatim>\<open>@return\<close>, \<^verbatim>\<open>@throws\<close>, \<^verbatim>\<open>@enum\<close>,
  \<^verbatim>\<open>@optional\<close>, \<^verbatim>\<open>@default\<close> or \<^verbatim>\<open>@extends\<close> and is not itself an opener line
  adds nothing to the summary and leaves the parser outside the block or with the
  accumulation of the summary switched off, whether or not the line gives a tag record.
  The accumulation stays off until a line that, trimmed, starts with the opener
  \<^verbatim>\<open>*>/**\<close> switches it on again: when no such line follows, the summary of the block
  is the summary accumulated before the line.
\<close>

theorem tag_mention_ends_summary:
  assumes "includesStr line ''@param'' \<or> includesStr line ''@return'' \<or> includesStr line ''@throws''
         \<or> includesStr line ''@enum'' \<or> includesStr line ''@optional''
         \<or> includesStr line ''@default'' \<or> includesStr line ''@extends''"
    and "\<not> startsWith (trim line) ''*>/**''"
    and "\<forall>l\<in>set rest. \<not> startsWith (trim l) ''*>/**''"
  shows "\<not> (parsingRechDoc (rechDocStep line s) \<and> extractingComment (rechDocStep line s))
       \<and> rComment (fold rechDocStep (line # rest) s) = rComment s
       \<and> comment (extractRechDoc (before @ line # rest)) = comment (extractRechDoc before)"
  using tag_line_step(2) [OF assms(1,2), of s] tag_line_fold [OF assms]
  by (simp add: extractRechDoc_def rechDocResult_def)


theorem tag_mention_ends_summary_witness:
  "(includesStr ''      *> Uses the @param values of the caller.'' ''@param''
      \<or> includesStr ''      *> Uses the @param values of the caller.'' ''@return''
      \<or> includesStr ''      *> Uses the @param values of the caller.'' ''@throws''
      \<or> includesStr ''      *> Uses the @param values of the caller.'' ''@enum''
      \<or> includesStr ''      *> Uses the @param values of the caller.'' ''@optional''
      \<or> includesStr ''      *> Uses the @param values of the caller.'' ''@default''
      \<or> includesStr ''      *> Uses the @param values of the caller.'' ''@extends'')
   \<and> \<not> startsWith (trim ''      *> Uses the @param values of the caller.'') ''*>/**''
   \<and> list_all (\<lambda>l. \<not> startsWith (trim l) ''*>/**'')
         [''      *> Then writes the total.'', ''      *>*/'']
   \<and> comment (extractRechDoc ([''      *>/**'', ''      *> Adds the amounts.'']
         @ ''      *> Uses the @param values of the caller.''
         # [''      *> Then writes the total.'', ''      *>*/'']))
     = comment (extractRechDoc [''      *>/**'', ''      *> Adds the amounts.''])
   \<and> extractRechDoc ([''      *>/**'', ''      *> Adds the amounts.'']
         @ ''      *> Uses the @param values of the caller.''
         # [''      *> Then writes the total.'', ''      *>*/''])
     = \<lparr>comment = ''Adds the amounts. '', params = [], returns = [], throws = []\<rparr>"
proof -
  let ?line = "''      *> Uses the @param values of the caller.''"
  let ?rest = "[''      *> Then writes the total.'', ''      *>*/'']"
  let ?before = "[''      *>/**'', ''      *> Adds the amounts.'']"
  have h1: "includesStr ?line ''@param'' \<or> includesStr ?line ''@return''
      \<or> includesStr ?line ''@throws'' \<or> includesStr ?line ''@enum''
      \<or> includesStr ?line ''@optional'' \<or> includesStr ?line ''@default''
      \<or> includesStr ?line ''@extends''"
    by code_simp
  have h2: "\<not> startsWith (trim ?line) ''*>/**''" by code_simp
  have h3: "\<forall>l\<in>set ?rest. \<not> startsWith (trim l) ''*>/**''" by code_simp
  have e: "extractRechDoc (?before @ ?line # ?rest)
     = \<lparr>comment = ''Adds the amounts. '', params = [], returns = [], throws = []\<rparr>"
    by code_simp
  from tag_mention_ends_summary [OF h1 h2 h3, of _ ?before]
  have "comment (extractRechDoc (?before @ ?line # ?rest)) = comment (extractRechDoc ?before)"
    by blast
  moreover from h3 have "list_all (\<lambda>l. \<not> startsWith (trim l) ''*>/**'') ?rest"
    by (simp only: list_all_iff)
  ultimately show ?thesis using h1 h2 e by blast
qed

text \<open>
  A second opener line after the line with the tag switches the accumulation on again,
  and an opener line that itself mentions a tag does not switch it off.
\<close>

theorem tag_mention_permanent_counterexample:
  "includesStr ''      *> Uses the @param values of the caller.'' ''@param''
   \<and> extractRechDoc [''      *>/**'', ''      *> Adds the amounts.'',
                      ''      *> Uses the @param values of the caller.'',
                      ''      *>/**'', ''      *> Then writes the total.'', ''      *>*/'']
     = \<lparr>comment = ''Adds the amounts. Then writes the total. '',
        params = [], returns = [], throws = []\<rparr>
   \<and> includesStr ''      *>/** See @return below.'' ''@return''
   \<and> extractRechDoc [''      *>/** See @return below.'', ''      *> Adds the amounts.'', ''      *>*/'']
     = \<lparr>comment = ''Adds the amounts. '', params = [], returns = [], throws = []\<rparr>"
  by code_simp

section \<open>Tag lines\<close>












































section \<open>The request and the cache\<close>

lemma generateExecutor_fields:
  "fst (generateExecutor env this w line column lines)
     = this\<lparr>currentLines := Some lines, lineNumber := line,
            rangeColumn := findWordStartWithinLine env column (lineAt lines line) - 1\<rparr>"
  by (simp add: generateExecutor_def Let_def)

lemma generateExecutor_resolves:
  "\<exists>items. snd (generateExecutor env this w line column lines) = Fulfilled items"
proof -
  let ?self = "this\<lparr>currentLines := Some lines, lineNumber := line,
      rangeColumn := findWordStartWithinLine env column (lineAt lines line) - 1\<rparr>"
  from generateParagraphCompletion_local_total [of ?self lines]
  obtain built where "generateParagraphCompletion ?self lines False = Inr built" by blast
  then show ?thesis
    by (simp add: generateExecutor_def Let_def resolve_def split: option.splits)
qed

lemma loadCache_local:
  assumes "sourceOfCompletions env = Fulfilled ''local''" "currentLines this = Some current"
  shows "\<exists>items. generateParagraphCompletion this current False = Inr items
       \<and> loadCache env this w =
           (w\<lparr>cache := Some items, cacheSourceFileName := Some (cacheFileName this)\<rparr>, Fulfilled ())"
proof -
  from generateParagraphCompletion_local_total [of this current]
  obtain items where "generateParagraphCompletion this current False = Inr items" by blast
  with assms show ?thesis by (simp add: loadCache_def)
qed

lemma loadCache_provider_rejects:
  assumes "sourceOfCompletions env = Fulfilled source" "source \<noteq> ''local''"
    and "getExpandedSource env (uri this) = Rejected"
  shows "loadCache env this w =
           (w\<lparr>expandedSourceRequests := expandedSourceRequests w @ [uri this]\<rparr>, Rejected)"
  using assms by (simp add: loadCache_def Let_def)

lemma generate_local:
  assumes "sourceOfCompletions env = Fulfilled ''local''"
  shows "\<exists>this' w' returned items.
      generate env this w line column lines = (this', w', returned)
      \<and> expandedSourceRequests w' = expandedSourceRequests w
      \<and> generateParagraphCompletion this' lines False = Inr items
      \<and> cache w' = Some items
      \<and> cacheSourceFileName w' = Some (cacheFileName this)"
proof -
  obtain this' returned where ex: "generateExecutor env this w line column lines = (this', returned)"
    by (cases "generateExecutor env this w line column lines")
  from generateExecutor_fields [of env this w line column lines] ex
  have this': "this' = this\<lparr>currentLines := Some lines, lineNumber := line,
      rangeColumn := findWordStartWithinLine env column (lineAt lines line) - 1\<rparr>"
    by simp
  then have cur: "currentLines this' = Some lines" and name: "cacheFileName this' = cacheFileName this"
    by simp_all
  from loadCache_local [OF assms cur, of w]
  obtain items where built: "generateParagraphCompletion this' lines False = Inr items"
    and lc: "loadCache env this' w =
           (w\<lparr>cache := Some items, cacheSourceFileName := Some (cacheFileName this')\<rparr>, Fulfilled ())"
    by blast
  from ex lc have "generate env this w line column lines =
      (this', w\<lparr>cache := Some items, cacheSourceFileName := Some (cacheFileName this')\<rparr>, returned)"
    by (simp add: generate_def)
  with built name show ?thesis by simp
qed

lemma generate_provider_rejects:
  assumes "sourceOfCompletions env = Fulfilled source" "source \<noteq> ''local''"
    and "getExpandedSource env (uri this) = Rejected"
  shows "\<exists>this' w' items.
      generate env this w line column lines = (this', w', Fulfilled items)
      \<and> cache w' = cache w
      \<and> cacheSourceFileName w' = cacheSourceFileName w"
proof -
  obtain this' returned where ex: "generateExecutor env this w line column lines = (this', returned)"
    by (cases "generateExecutor env this w line column lines")
  from generateExecutor_resolves [of env this w line column lines] ex
  obtain items where r: "returned = Fulfilled items" by auto
  from generateExecutor_fields [of env this w line column lines] ex
  have "uri this' = uri this" by auto
  with assms(3) have "getExpandedSource env (uri this') = Rejected" by simp
  from loadCache_provider_rejects [OF assms(1,2) this, of w] ex r
  have "generate env this w line column lines =
      (this', w\<lparr>expandedSourceRequests := expandedSourceRequests w @ [uri this']\<rparr>, Fulfilled items)"
    by (simp add: generate_def reject_def)
  then show ?thesis by simp
qed

text \<open>
  Claim C4. When \<^verbatim>\<open>sourceOfCompletions\<close> resolves to \<^verbatim>\<open>local\<close>, a request never calls
  \<^verbatim>\<open>ExpandedSourceManager.getExpandedSource\<close>: the log of its calls is as before. The
  index is built from the lines of the request without \<^verbatim>\<open>useCache\<close>, which cannot
  raise, and is stored in the cache under the cache file name of the instance.
\<close>

theorem local_source_never_expands:
  assumes "sourceOfCompletions env = Fulfilled ''local''"
  shows "\<exists>this' w' returned items.
      generate env this w line column lines = (this', w', returned)
      \<and> expandedSourceRequests w' = expandedSourceRequests w
      \<and> generateParagraphCompletion this' lines False = Inr items
      \<and> cache w' = Some items
      \<and> cacheSourceFileName w' = Some (cacheFileName this)"
  using assms by (rule generate_local)

theorem local_source_never_expands_witness:
  "sourceOfCompletions \<lparr>findWordStartWithinLine = (\<lambda>column text. column), split = (\<lambda>buffer. [buffer]),
        sourceOfCompletions = Fulfilled ''local'',
        getExpandedSource = (\<lambda>fileUri. Fulfilled ''       FROM-COPY.'')\<rparr> = Fulfilled ''local''
   \<and> (\<exists>this' w' returned items.
        generate \<lparr>findWordStartWithinLine = (\<lambda>column text. column), split = (\<lambda>buffer. [buffer]),
        sourceOfCompletions = Fulfilled ''local'',
        getExpandedSource = (\<lambda>fileUri. Fulfilled ''       FROM-COPY.'')\<rparr> \<lparr>cacheFileName = ''prog.cbl'', uri = ''file:///prog.cbl'', currentLines = None,
        lineNumber = 0, rangeColumn = 0\<rparr> \<lparr>cache = None, cacheSourceFileName = None, expandedSourceRequests = []\<rparr> 1 19 [''       MAIN.'', ''           perform ''] = (this', w', returned)
        \<and> expandedSourceRequests w' = expandedSourceRequests \<lparr>cache = None, cacheSourceFileName = None, expandedSourceRequests = []\<rparr>
        \<and> generateParagraphCompletion this' [''       MAIN.'', ''           perform ''] False = Inr items
        \<and> cache w' = Some items
        \<and> cacheSourceFileName w' = Some (cacheFileName \<lparr>cacheFileName = ''prog.cbl'', uri = ''file:///prog.cbl'', currentLines = None,
        lineNumber = 0, rangeColumn = 0\<rparr>))
   \<and> generate \<lparr>findWordStartWithinLine = (\<lambda>column text. column), split = (\<lambda>buffer. [buffer]),
        sourceOfCompletions = Fulfilled ''local'',
        getExpandedSource = (\<lambda>fileUri. Fulfilled ''       FROM-COPY.'')\<rparr> \<lparr>cacheFileName = ''prog.cbl'', uri = ''file:///prog.cbl'', currentLines = None,
        lineNumber = 0, rangeColumn = 0\<rparr> \<lparr>cache = None, cacheSourceFileName = None, expandedSourceRequests = []\<rparr> 1 19 [''       MAIN.'', ''           perform '']
     = (\<lparr>cacheFileName = ''prog.cbl'', uri = ''file:///prog.cbl'',
        currentLines = Some [''       MAIN.'', ''           perform ''],
        lineNumber = 1, rangeColumn = 18\<rparr>,
        \<lparr>cache = Some [(''MAIN'', \<lparr>label = ''MAIN'', newText = ''MAIN'', rangeLine = 1, rangeCharacter = 18,
           cobolDoc = \<lparr>comment = [], params = [], returns = [], throws = []\<rparr>\<rparr>)], cacheSourceFileName = Some ''prog.cbl'',
         expandedSourceRequests = []\<rparr>,
        Fulfilled [\<lparr>label = ''MAIN'', newText = ''MAIN'', rangeLine = 1, rangeCharacter = 18,
           cobolDoc = \<lparr>comment = [], params = [], returns = [], throws = []\<rparr>\<rparr>])"
proof -
  let ?env = "\<lparr>findWordStartWithinLine = (\<lambda>column text. column), split = (\<lambda>buffer. [buffer]),
        sourceOfCompletions = Fulfilled ''local'',
        getExpandedSource = (\<lambda>fileUri. Fulfilled ''       FROM-COPY.'')\<rparr>"
  let ?self = "\<lparr>cacheFileName = ''prog.cbl'', uri = ''file:///prog.cbl'', currentLines = None,
        lineNumber = 0, rangeColumn = 0\<rparr>"
  let ?w = "\<lparr>cache = None, cacheSourceFileName = None, expandedSourceRequests = []\<rparr>"
  have h: "sourceOfCompletions ?env = Fulfilled ''local''" by simp
  have e: "generate ?env ?self ?w 1 19 [''       MAIN.'', ''           perform '']
     = (\<lparr>cacheFileName = ''prog.cbl'', uri = ''file:///prog.cbl'',
        currentLines = Some [''       MAIN.'', ''           perform ''],
        lineNumber = 1, rangeColumn = 18\<rparr>,
        \<lparr>cache = Some [(''MAIN'', \<lparr>label = ''MAIN'', newText = ''MAIN'', rangeLine = 1, rangeCharacter = 18,
           cobolDoc = \<lparr>comment = [], params = [], returns = [], throws = []\<rparr>\<rparr>)], cacheSourceFileName = Some ''prog.cbl'',
         expandedSourceRequests = []\<rparr>,
        Fulfilled [\<lparr>label = ''MAIN'', newText = ''MAIN'', rangeLine = 1, rangeCharacter = 18,
           cobolDoc = \<lparr>comment = [], params = [], returns = [], throws = []\<rparr>\<rparr>])"
    by code_simp
  from h e local_source_never_expands [OF h, of ?self ?w 1 19 "[''       MAIN.'', ''           perform '']"]
  show ?thesis by blast
qed

text \<open>
  Claim C2, on the code. When \<^verbatim>\<open>sourceOfCompletions\<close> resolves to anything but
  \<^verbatim>\<open>local\<close> and the promise of the expanded source is rejected, the cache and the
  name of its file are what they were, so an entry cached before is still read unchanged.
  The promise that \<^verbatim>\<open>generate\<close> returned is not rejected: its executor has already
  fulfilled it with the items it found, and the \<^verbatim>\<open>reject()\<close> of the handler comes
  after that and changes nothing.
\<close>

theorem provider_rejection_resolves:
  assumes "sourceOfCompletions env = Fulfilled source" "source \<noteq> ''local''"
    and "getExpandedSource env (uri this) = Rejected"
  shows "\<exists>this' w' items.
      generate env this w line column lines = (this', w', Fulfilled items)
      \<and> cache w' = cache w
      \<and> cacheSourceFileName w' = cacheSourceFileName w"
  using assms by (rule generate_provider_rejects)

theorem provider_rejection_resolves_witness:
  "sourceOfCompletions \<lparr>findWordStartWithinLine = (\<lambda>column text. column), split = (\<lambda>buffer. [buffer]),
        sourceOfCompletions = Fulfilled ''expanded'',
        getExpandedSource = (\<lambda>fileUri. Rejected)\<rparr> = Fulfilled ''expanded''
   \<and> ''expanded'' \<noteq> ''local''
   \<and> getExpandedSource \<lparr>findWordStartWithinLine = (\<lambda>column text. column), split = (\<lambda>buffer. [buffer]),
        sourceOfCompletions = Fulfilled ''expanded'',
        getExpandedSource = (\<lambda>fileUri. Rejected)\<rparr> (uri \<lparr>cacheFileName = ''prog.cbl'', uri = ''file:///prog.cbl'', currentLines = None,
        lineNumber = 0, rangeColumn = 0\<rparr>) = Rejected
   \<and> (\<exists>this' w' items.
        generate \<lparr>findWordStartWithinLine = (\<lambda>column text. column), split = (\<lambda>buffer. [buffer]),
        sourceOfCompletions = Fulfilled ''expanded'',
        getExpandedSource = (\<lambda>fileUri. Rejected)\<rparr> \<lparr>cacheFileName = ''prog.cbl'', uri = ''file:///prog.cbl'', currentLines = None,
        lineNumber = 0, rangeColumn = 0\<rparr> \<lparr>cache = Some [(''OLD'', \<lparr>label = ''OLD'', newText = ''OLD'', rangeLine = 0, rangeCharacter = 11,
           cobolDoc = \<lparr>comment = ''Cached '', params = [], returns = [], throws = []\<rparr>\<rparr>)], cacheSourceFileName = Some ''prog.cbl'',
        expandedSourceRequests = []\<rparr> 1 19 [''       MAIN.'', ''           perform ''] = (this', w', Fulfilled items)
        \<and> cache w' = cache \<lparr>cache = Some [(''OLD'', \<lparr>label = ''OLD'', newText = ''OLD'', rangeLine = 0, rangeCharacter = 11,
           cobolDoc = \<lparr>comment = ''Cached '', params = [], returns = [], throws = []\<rparr>\<rparr>)], cacheSourceFileName = Some ''prog.cbl'',
        expandedSourceRequests = []\<rparr>
        \<and> cacheSourceFileName w' = cacheSourceFileName \<lparr>cache = Some [(''OLD'', \<lparr>label = ''OLD'', newText = ''OLD'', rangeLine = 0, rangeCharacter = 11,
           cobolDoc = \<lparr>comment = ''Cached '', params = [], returns = [], throws = []\<rparr>\<rparr>)], cacheSourceFileName = Some ''prog.cbl'',
        expandedSourceRequests = []\<rparr>)
   \<and> generate \<lparr>findWordStartWithinLine = (\<lambda>column text. column), split = (\<lambda>buffer. [buffer]),
        sourceOfCompletions = Fulfilled ''expanded'',
        getExpandedSource = (\<lambda>fileUri. Rejected)\<rparr> \<lparr>cacheFileName = ''prog.cbl'', uri = ''file:///prog.cbl'', currentLines = None,
        lineNumber = 0, rangeColumn = 0\<rparr> \<lparr>cache = Some [(''OLD'', \<lparr>label = ''OLD'', newText = ''OLD'', rangeLine = 0, rangeCharacter = 11,
           cobolDoc = \<lparr>comment = ''Cached '', params = [], returns = [], throws = []\<rparr>\<rparr>)], cacheSourceFileName = Some ''prog.cbl'',
        expandedSourceRequests = []\<rparr> 1 19 [''       MAIN.'', ''           perform '']
     = (\<lparr>cacheFileName = ''prog.cbl'', uri = ''file:///prog.cbl'',
        currentLines = Some [''       MAIN.'', ''           perform ''],
        lineNumber = 1, rangeColumn = 18\<rparr>, \<lparr>cache = Some [(''OLD'', \<lparr>label = ''OLD'', newText = ''OLD'', rangeLine = 0, rangeCharacter = 11,
           cobolDoc = \<lparr>comment = ''Cached '', params = [], returns = [], throws = []\<rparr>\<rparr>)], cacheSourceFileName = Some ''prog.cbl'',
        expandedSourceRequests = [''file:///prog.cbl'']\<rparr>, Fulfilled [\<lparr>label = ''OLD'', newText = ''OLD'', rangeLine = 0, rangeCharacter = 11,
           cobolDoc = \<lparr>comment = ''Cached '', params = [], returns = [], throws = []\<rparr>\<rparr>])"
proof -
  let ?env = "\<lparr>findWordStartWithinLine = (\<lambda>column text. column), split = (\<lambda>buffer. [buffer]),
        sourceOfCompletions = Fulfilled ''expanded'',
        getExpandedSource = (\<lambda>fileUri. Rejected)\<rparr>"
  let ?self = "\<lparr>cacheFileName = ''prog.cbl'', uri = ''file:///prog.cbl'', currentLines = None,
        lineNumber = 0, rangeColumn = 0\<rparr>"
  let ?w = "\<lparr>cache = Some [(''OLD'', \<lparr>label = ''OLD'', newText = ''OLD'', rangeLine = 0, rangeCharacter = 11,
           cobolDoc = \<lparr>comment = ''Cached '', params = [], returns = [], throws = []\<rparr>\<rparr>)], cacheSourceFileName = Some ''prog.cbl'',
        expandedSourceRequests = []\<rparr>"
  have h1: "sourceOfCompletions ?env = Fulfilled ''expanded''" by simp
  have h2: "''expanded'' \<noteq> ''local''" by simp
  have h3: "getExpandedSource ?env (uri ?self) = Rejected" by simp
  have e: "generate ?env ?self ?w 1 19 [''       MAIN.'', ''           perform ''] = (\<lparr>cacheFileName = ''prog.cbl'', uri = ''file:///prog.cbl'',
        currentLines = Some [''       MAIN.'', ''           perform ''],
        lineNumber = 1, rangeColumn = 18\<rparr>, \<lparr>cache = Some [(''OLD'', \<lparr>label = ''OLD'', newText = ''OLD'', rangeLine = 0, rangeCharacter = 11,
           cobolDoc = \<lparr>comment = ''Cached '', params = [], returns = [], throws = []\<rparr>\<rparr>)], cacheSourceFileName = Some ''prog.cbl'',
        expandedSourceRequests = [''file:///prog.cbl'']\<rparr>, Fulfilled [\<lparr>label = ''OLD'', newText = ''OLD'', rangeLine = 0, rangeCharacter = 11,
           cobolDoc = \<lparr>comment = ''Cached '', params = [], returns = [], throws = []\<rparr>\<rparr>])"
    by code_simp
  from h1 h2 h3 e provider_rejection_resolves [OF h1 h2 h3, of ?w 1 19 "[''       MAIN.'', ''           perform '']"]
  show ?thesis by blast
qed

end
